theory Spec2Isabelle
  imports Main "HOL-Library.Sublist" "HOL-Library.Multiset" "HOL-Library.AList"
begin

section \<open>Python values shared by the scrapers\<close>

text \<open>
  Timestamps are \<^verbatim>\<open>datetime\<close> objects; they are modelled by their number of
  microseconds since the epoch, the resolution \<^verbatim>\<open>datetime\<close> has. Application ids
  are Python ints.
\<close>

type_synonym datetime = int
type_synonym appid = int

text \<open>Decoded JSON documents, the payloads that the scrapers fetch and store.\<close>

datatype json =
    JNull
  | JBool bool
  | JInt int
  | JStr string
  | JArr "json list"
  | JObj "(string \<times> json) list"

text \<open>The exceptions that the modelled code raises or lets through.\<close>

datatype exn =
    RequestException string
  | KeyboardInterrupt
  | TypeError string
  | AttributeError
  | KeyError string
  | ZeroDivisionError
  | RecursionError
  | UnpicklingError

section \<open>checkpoint.py\<close>

text \<open>
  \<^verbatim>\<open>BaseCheckpoint\<close> carries the two timestamps. \<^verbatim>\<open>SteamSpyCheckpoint\<close>
  (steamspy\_scraper.py) and \<^verbatim>\<open>StorePageCheckpoint\<close> (steam\_store\_scraper\_v2.py)
  extend it with the same four fields and the same methods, so one record serves both;
  \<^verbatim>\<open>SteamAPICheckpoint\<close> (steam\_api\_scraper\_v2.py) extends it with a dict and two
  sets. A dict whose key order is read back is an association list in insertion order;
  \<^verbatim>\<open>failed_ids\<close>, of which only keys and values are read, is a map.
\<close>

record base_checkpoint =
  started_at :: "datetime option"
  last_saved_at :: "datetime option"

record harvest_checkpoint = base_checkpoint +
  app_ids_to_scrape :: "appid list"
  completed_ids :: "appid set"
  no_data_ids :: "appid set"
  failed_ids :: "appid \<rightharpoonup> string"

record steam_api_checkpoint = base_checkpoint +
  apps_data :: "(appid \<times> json) list"
  excluded_apps :: "appid set"
  error_apps :: "appid set"

text \<open>\<^verbatim>\<open>mark_started\<close>: sets \<^verbatim>\<open>started_at\<close> on the first call only.\<close>

definition mark_started :: "datetime \<Rightarrow> 'a base_checkpoint_scheme \<Rightarrow> 'a base_checkpoint_scheme" where
  "mark_started now c = (if started_at c = None then c\<lparr>started_at := Some now\<rparr> else c)"

text \<open>
  The checkpoint manager pickles any object. The objects that the scrapers hand to it
  are the three checkpoint dataclasses and plain dicts (from an id to a payload, or to a
  list of tag names), sets and lists.
\<close>

datatype pyvalue =
    SteamSpyCheckpoint harvest_checkpoint
  | StorePageCheckpoint harvest_checkpoint
  | SteamAPICheckpoint steam_api_checkpoint
  | PyDict "(appid \<times> json) list"
  | PyTagDict "(appid \<times> string list) list"
  | PySet "appid set"
  | PyList "appid list"

datatype pytype =
    TBaseCheckpoint
  | TSteamSpyCheckpoint
  | TStorePageCheckpoint
  | TSteamAPICheckpoint
  | TDict
  | TSet
  | TList

fun type_of :: "pyvalue \<Rightarrow> pytype" where
  "type_of (SteamSpyCheckpoint c) = TSteamSpyCheckpoint"
| "type_of (StorePageCheckpoint c) = TStorePageCheckpoint"
| "type_of (SteamAPICheckpoint c) = TSteamAPICheckpoint"
| "type_of (PyDict d) = TDict"
| "type_of (PyTagDict d) = TDict"
| "type_of (PySet s) = TSet"
| "type_of (PyList l) = TList"

text \<open>\<^verbatim>\<open>isinstance\<close>: the three dataclasses are subclasses of \<^verbatim>\<open>BaseCheckpoint\<close>.\<close>

definition isinstance :: "pyvalue \<Rightarrow> pytype \<Rightarrow> bool" where
  "isinstance v t =
     (type_of v = t \<or>
      (t = TBaseCheckpoint \<and>
       type_of v \<in> {TSteamSpyCheckpoint, TStorePageCheckpoint, TSteamAPICheckpoint}))"

text \<open>\<^verbatim>\<open>hasattr(data, 'last_saved_at')\<close> and the assignment to that attribute.\<close>

fun hasattr_last_saved_at :: "pyvalue \<Rightarrow> bool" where
  "hasattr_last_saved_at (SteamSpyCheckpoint c) = True"
| "hasattr_last_saved_at (StorePageCheckpoint c) = True"
| "hasattr_last_saved_at (SteamAPICheckpoint c) = True"
| "hasattr_last_saved_at (PyDict d) = False"
| "hasattr_last_saved_at (PyTagDict d) = False"
| "hasattr_last_saved_at (PySet s) = False"
| "hasattr_last_saved_at (PyList l) = False"

fun set_last_saved_at :: "datetime \<Rightarrow> pyvalue \<Rightarrow> pyvalue" where
  "set_last_saved_at now (SteamSpyCheckpoint c) = SteamSpyCheckpoint (c\<lparr>last_saved_at := Some now\<rparr>)"
| "set_last_saved_at now (StorePageCheckpoint c) = StorePageCheckpoint (c\<lparr>last_saved_at := Some now\<rparr>)"
| "set_last_saved_at now (SteamAPICheckpoint c) = SteamAPICheckpoint (c\<lparr>last_saved_at := Some now\<rparr>)"
| "set_last_saved_at now (PyDict d) = PyDict d"
| "set_last_saved_at now (PyTagDict d) = PyTagDict d"
| "set_last_saved_at now (PySet s) = PySet s"
| "set_last_saved_at now (PyList l) = PyList l"

text \<open>
  The file system maps a path to the content of the file there. \<^verbatim>\<open>pickle\<close> is the
  standard library: a file that \<^verbatim>\<open>pickle.dump(v, f)\<close> wrote to its end is
  \<open>Pickled v\<close>, and \<^verbatim>\<open>pickle.load\<close> gives \<open>v\<close> back from it. A file that
  \<^verbatim>\<open>open(path, 'wb')\<close> has emptied and that was not written to its end is
  \<open>Truncated\<close>; \<^verbatim>\<open>pickle.load\<close> raises on it.
\<close>

datatype pickle_file = Pickled pyvalue | Truncated

type_synonym filesystem = "string \<rightharpoonup> pickle_file"

record checkpoint_manager =
  directory :: string

definition get_path :: "checkpoint_manager \<Rightarrow> string \<Rightarrow> string" where
  "get_path mgr name = directory mgr @ ''/'' @ name @ ''.pkl''"

definition open_wb :: "filesystem \<Rightarrow> string \<Rightarrow> filesystem" where
  "open_wb fs path = fs(path \<mapsto> Truncated)"

definition pickle_dump :: "filesystem \<Rightarrow> string \<Rightarrow> pyvalue \<Rightarrow> filesystem" where
  "pickle_dump fs path data = fs(path \<mapsto> Pickled data)"

text \<open>
  \<^verbatim>\<open>CheckpointManager.save\<close>. The caller's object is mutated in place, so the
  function returns it next to the new file system. \<open>now\<close> is what
  \<^verbatim>\<open>datetime.now()\<close> returns during the call.
\<close>

definition save ::
  "checkpoint_manager \<Rightarrow> datetime \<Rightarrow> filesystem \<Rightarrow> string \<Rightarrow> pyvalue \<Rightarrow> filesystem \<times> pyvalue" where
  "save mgr now fs name data =
     (let path = get_path mgr name;
          data1 = (if hasattr_last_saved_at data then set_last_saved_at now data else data);
          fs1 = open_wb fs path;
          fs2 = pickle_dump fs1 path data1
      in (fs2, data1))"

text \<open>
  The same call when it is cut short inside \<^verbatim>\<open>pickle.dump\<close> (an interruption
  signal, or an exception of the pickler): the file is open and emptied, the
  \<^verbatim>\<open>with\<close> block closes it, and nothing else is written.
\<close>

definition save_interrupted ::
  "checkpoint_manager \<Rightarrow> datetime \<Rightarrow> filesystem \<Rightarrow> string \<Rightarrow> pyvalue \<Rightarrow> filesystem \<times> pyvalue" where
  "save_interrupted mgr now fs name data =
     (let path = get_path mgr name;
          data1 = (if hasattr_last_saved_at data then set_last_saved_at now data else data);
          fs1 = open_wb fs path
      in (fs1, data1))"

text \<open>
  \<^verbatim>\<open>CheckpointManager.load\<close>: \<open>Inr None\<close> when there is no file, \<open>Inl\<close> an
  exception when unpickling or the type check fails.
\<close>

definition load ::
  "checkpoint_manager \<Rightarrow> filesystem \<Rightarrow> string \<Rightarrow> pytype option \<Rightarrow> exn + pyvalue option" where
  "load mgr fs name expected_type =
     (case fs (get_path mgr name) of
        None \<Rightarrow> Inr None
      | Some Truncated \<Rightarrow> Inl UnpicklingError
      | Some (Pickled data) \<Rightarrow>
          (case expected_type of
             None \<Rightarrow> Inr (Some data)
           | Some t \<Rightarrow>
               if \<not> isinstance data t then Inl (TypeError name) else Inr (Some data)))"

definition exists_checkpoint :: "checkpoint_manager \<Rightarrow> filesystem \<Rightarrow> string \<Rightarrow> bool" where
  "exists_checkpoint mgr fs name = (fs (get_path mgr name) \<noteq> None)"

definition delete :: "checkpoint_manager \<Rightarrow> filesystem \<Rightarrow> string \<Rightarrow> filesystem \<times> bool" where
  "delete mgr fs name =
     (let path = get_path mgr name
      in if fs path \<noteq> None then (fs(path := None), True) else (fs, False))"

section \<open>What the scrapers share\<close>

text \<open>
  Every scraper script has its own configuration dataclass; the record holds the fields
  that the modelled functions read (each script has the subset it uses).
\<close>

record scraper_config =
  checkpoint_dir :: string
  steam_checkpoint_file :: string
  checkpoint_interval :: int
  max_retries :: int
  test_mode :: bool
  test_limit :: int

text \<open>
  What one call of \<^verbatim>\<open>session.get\<close> or \<^verbatim>\<open>requests.get\<close> does: it returns a
  response (status code and decoded body), or raises \<^verbatim>\<open>requests.exceptions.Timeout\<close>,
  or raises another \<^verbatim>\<open>RequestException\<close> with a message, or the interruption signal
  arrives while the call (or the back-off sleep after it) blocks.
\<close>

datatype 'b transport =
    Response int 'b
  | Timeout
  | RequestError string
  | Interrupt

text \<open>
  The environment of a run. \<open>net i k\<close> is the outcome of request number \<open>k\<close>
  (from 0) made for the id at loop position \<open>i\<close>; \<open>clock i\<close> is the time that
  \<^verbatim>\<open>datetime.now()\<close> returns at loop position \<open>i\<close> (0 before the loop);
  \<open>sleep_interrupted i\<close> says that the interruption signal arrives during the
  rate-limiting sleep that ends iteration \<open>i\<close>; \<open>recursion_limit\<close> is the depth at
  which the interpreter raises \<^verbatim>\<open>RecursionError\<close>.
\<close>

record 'b env =
  net :: "nat \<Rightarrow> nat \<Rightarrow> 'b transport"
  clock :: "nat \<Rightarrow> datetime"
  sleep_interrupted :: "nat \<Rightarrow> bool"
  recursion_limit :: nat

text \<open>Python truth value of a decoded JSON document.\<close>

fun truthy :: "json \<Rightarrow> bool" where
  "truthy JNull = False"
| "truthy (JBool b) = b"
| "truthy (JInt i) = (i \<noteq> 0)"
| "truthy (JStr s) = (s \<noteq> [])"
| "truthy (JArr xs) = (xs \<noteq> [])"
| "truthy (JObj kvs) = (kvs \<noteq> [])"

text \<open>\<^verbatim>\<open>str(n)\<close> for an int.\<close>

fun str_nat :: "nat \<Rightarrow> string" where
  "str_nat n =
     (if n < 10 then [''0123456789'' ! n]
      else str_nat (n div 10) @ [''0123456789'' ! (n mod 10)])"

declare str_nat.simps [simp del]

definition str_int :: "int \<Rightarrow> string" where
  "str_int i = (if i < 0 then CHR ''-'' # str_nat (nat (- i)) else str_nat (nat i))"

text \<open>The slice \<^verbatim>\<open>xs[:n]\<close>; a negative \<open>n\<close> counts from the end.\<close>

definition py_take :: "int \<Rightarrow> 'a list \<Rightarrow> 'a list" where
  "py_take n xs =
     (if 0 \<le> n then take (nat n) xs else take (length xs - nat (- n)) xs)"

text \<open>
  A Python \<^verbatim>\<open>set\<close> that is iterated or turned into a list is modelled by the list of
  its elements without repetition, in the order of insertion. The language leaves the
  iteration order of a set open (it comes from the hash table), so \<^verbatim>\<open>list(s)\<close> takes
  that order as a parameter \<open>order\<close>, a rearrangement of the elements.
\<close>

definition set_add :: "'a \<Rightarrow> 'a list \<Rightarrow> 'a list" where
  "set_add x s = (if x \<in> set s then s else s @ [x])"

definition set_of_list :: "'a list \<Rightarrow> 'a list" where
  "set_of_list xs = foldl (\<lambda>s x. set_add x s) [] xs"

definition list_of_set :: "('a list \<Rightarrow> 'a list) \<Rightarrow> 'a list \<Rightarrow> 'a list" where
  "list_of_set order s = order s"

definition iteration_order :: "('a list \<Rightarrow> 'a list) \<Rightarrow> bool" where
  "iteration_order order = (\<forall>s. mset (order s) = mset s)"

section \<open>steamspy\_scraper.py\<close>

text \<open>\<^verbatim>\<open>SteamSpyCheckpoint()\<close>, all fields at their defaults.\<close>

definition new_harvest_checkpoint :: harvest_checkpoint where
  "new_harvest_checkpoint =
     \<lparr>started_at = None, last_saved_at = None, app_ids_to_scrape = [],
      completed_ids = {}, no_data_ids = {}, failed_ids = Map.empty\<rparr>"

text \<open>\<^verbatim>\<open>SteamSpyCheckpoint.get_pending\<close> (and \<^verbatim>\<open>StorePageCheckpoint.get_pending\<close>).\<close>

definition get_pending :: "harvest_checkpoint \<Rightarrow> appid list" where
  "get_pending c =
     (let done = completed_ids c \<union> no_data_ids c \<union> dom (failed_ids c)
      in filter (\<lambda>appid. appid \<notin> done) (app_ids_to_scrape c))"

text \<open>
  \<^verbatim>\<open>SteamSpyAPI.get_app_details\<close>. The body of a 200 response is
  \<^verbatim>\<open>response.json()\<close>. A body that is true and is not a dict has no \<^verbatim>\<open>get\<close>:
  the call raises \<^verbatim>\<open>AttributeError\<close>, which no handler here catches.
\<close>

definition name_missing :: "json option \<Rightarrow> bool" where
  "name_missing v = (v \<in> {None, Some JNull, Some (JStr ''''), Some (JStr ''None'')})"

fun classify_body :: "json \<Rightarrow> exn + json option" where
  "classify_body (JObj kvs) =
     (if \<not> truthy (JObj kvs) \<or> name_missing (map_of kvs ''name'') then Inr None
      else Inr (Some (JObj kvs)))"
| "classify_body data = (if \<not> truthy data then Inr None else Inl AttributeError)"

text \<open>
  The retry loop \<^verbatim>\<open>for attempt in range(max_retries)\<close>: \<open>k\<close> requests have been
  made, \<open>n\<close> iterations are left. The result comes with the number of requests made.
\<close>

fun spy_attempts ::
  "(nat \<Rightarrow> json transport) \<Rightarrow> appid \<Rightarrow> nat \<Rightarrow> nat \<Rightarrow> (exn + json option) \<times> nat" where
  "spy_attempts nt appid k 0 =
     (Inl (RequestException (''Max retries exceeded for appid '' @ str_int appid)), k)"
| "spy_attempts nt appid k (Suc n) =
     (case nt k of
        Response status_code body \<Rightarrow>
          if status_code = 200 then (classify_body body, Suc k)
          else if status_code = 429 then spy_attempts nt appid (Suc k) n
          else (Inr None, Suc k)
      | Timeout \<Rightarrow> spy_attempts nt appid (Suc k) n
      | RequestError msg \<Rightarrow> (Inl (RequestException msg), Suc k)
      | Interrupt \<Rightarrow> (Inl KeyboardInterrupt, Suc k))"

definition get_app_details ::
  "scraper_config \<Rightarrow> (nat \<Rightarrow> json transport) \<Rightarrow> appid \<Rightarrow> (exn + json option) \<times> nat" where
  "get_app_details cfg nt appid = spy_attempts nt appid 0 (nat (max_retries cfg))"

text \<open>
  The state of a \<^verbatim>\<open>SteamSpyScraper\<close>: its checkpoint object, the file system with the
  pickled checkpoints, and the JSONL output file as the list of records appended.
\<close>

record scraper_state =
  checkpoint :: harvest_checkpoint
  files :: filesystem
  output_file :: "(appid \<times> datetime \<times> json) list"

definition CHECKPOINT_NAME :: string where
  "CHECKPOINT_NAME = ''steamspy''"

definition checkpoint_mgr :: "scraper_config \<Rightarrow> checkpoint_manager" where
  "checkpoint_mgr cfg = \<lparr>directory = checkpoint_dir cfg\<rparr>"

definition save_checkpoint :: "scraper_config \<Rightarrow> datetime \<Rightarrow> scraper_state \<Rightarrow> scraper_state" where
  "save_checkpoint cfg now st =
     (case save (checkpoint_mgr cfg) now (files st) CHECKPOINT_NAME
             (SteamSpyCheckpoint (checkpoint st)) of
        (fs, SteamSpyCheckpoint c) \<Rightarrow> st\<lparr>checkpoint := c, files := fs\<rparr>
      | (fs, _) \<Rightarrow> st\<lparr>files := fs\<rparr>)"

definition append_result :: "datetime \<Rightarrow> appid \<Rightarrow> json \<Rightarrow> scraper_state \<Rightarrow> scraper_state" where
  "append_result now appid data st = st\<lparr>output_file := output_file st @ [(appid, now, data)]\<rparr>"

text \<open>
  Lines 259 to 270 of \<^verbatim>\<open>run\<close>: fetch one id and classify the result. An exception that
  is not a \<^verbatim>\<open>RequestException\<close> leaves the loop; it is returned next to the state.
\<close>

definition fetch_and_classify ::
  "json env \<Rightarrow> scraper_config \<Rightarrow> nat \<Rightarrow> appid \<Rightarrow> scraper_state \<Rightarrow> exn option \<times> scraper_state" where
  "fetch_and_classify e cfg i appid st =
     (case fst (get_app_details cfg (net e i) appid) of
        Inr (Some data) \<Rightarrow>
          (None, (append_result (clock e i) appid data st)
                   \<lparr>checkpoint := (checkpoint st)\<lparr>completed_ids := insert appid (completed_ids (checkpoint st))\<rparr>\<rparr>)
      | Inr None \<Rightarrow>
          (None, st\<lparr>checkpoint := (checkpoint st)\<lparr>no_data_ids := insert appid (no_data_ids (checkpoint st))\<rparr>\<rparr>)
      | Inl (RequestException msg) \<Rightarrow>
          (None, st\<lparr>checkpoint := (checkpoint st)\<lparr>failed_ids := (failed_ids (checkpoint st))(appid \<mapsto> msg)\<rparr>\<rparr>)
      | Inl ex \<Rightarrow> (Some ex, st))"

text \<open>
  One iteration of the loop of \<^verbatim>\<open>run\<close>, at position \<open>i\<close> of
  \<^verbatim>\<open>enumerate(pending, 1)\<close>: the step above, the periodic save
  (\<^verbatim>\<open>i % checkpoint_interval\<close> raises when the interval is 0), the sleep.
\<close>

definition iteration ::
  "json env \<Rightarrow> scraper_config \<Rightarrow> nat \<Rightarrow> appid \<Rightarrow> scraper_state \<Rightarrow> exn option \<times> scraper_state" where
  "iteration e cfg i appid st =
     (case fetch_and_classify e cfg i appid st of
        (Some ex, st1) \<Rightarrow> (Some ex, st1)
      | (None, st1) \<Rightarrow>
          if checkpoint_interval cfg = 0 then (Some ZeroDivisionError, st1)
          else
            let st2 = (if int i mod checkpoint_interval cfg = 0
                       then save_checkpoint cfg (clock e i) st1 else st1)
            in if sleep_interrupted e i then (Some KeyboardInterrupt, st2) else (None, st2))"

fun scrape_loop ::
  "json env \<Rightarrow> scraper_config \<Rightarrow> nat \<Rightarrow> appid list \<Rightarrow> scraper_state \<Rightarrow> exn option \<times> scraper_state" where
  "scrape_loop e cfg i [] st = (None, st)"
| "scrape_loop e cfg i (appid # rest) st =
     (case iteration e cfg i appid st of
        (Some ex, st1) \<Rightarrow> (Some ex, st1)
      | (None, st1) \<Rightarrow> scrape_loop e cfg (Suc i) rest st1)"

text \<open>
  \<^verbatim>\<open>load_app_ids_from_steam_checkpoint\<close>: the ids are the keys of the dict that the
  Steam API scraper pickled, in either of its two formats.
\<close>

definition load_app_ids_from_steam_checkpoint ::
  "scraper_config \<Rightarrow> scraper_state \<Rightarrow> exn + bool \<times> scraper_state" where
  "load_app_ids_from_steam_checkpoint cfg st =
     (case files st (steam_checkpoint_file cfg) of
        None \<Rightarrow> Inr (False, st)
      | Some Truncated \<Rightarrow> Inl UnpicklingError
      | Some (Pickled (SteamAPICheckpoint a)) \<Rightarrow>
          Inr (True, st\<lparr>checkpoint := (checkpoint st)\<lparr>app_ids_to_scrape := map fst (apps_data a)\<rparr>\<rparr>)
      | Some (Pickled (PyDict d)) \<Rightarrow>
          Inr (True, st\<lparr>checkpoint := (checkpoint st)\<lparr>app_ids_to_scrape := map fst d\<rparr>\<rparr>)
      | Some (Pickled _) \<Rightarrow> Inr (False, st))"

text \<open>
  The \<^verbatim>\<open>try\<close> statement of \<^verbatim>\<open>run\<close>: the loop, the handler of
  \<^verbatim>\<open>KeyboardInterrupt\<close>, and the \<^verbatim>\<open>finally\<close> clause that saves. The clock of
  the last save is read at the position after the last id.
\<close>

definition try_scrape ::
  "json env \<Rightarrow> scraper_config \<Rightarrow> appid list \<Rightarrow> scraper_state \<Rightarrow> exn option \<times> scraper_state" where
  "try_scrape e cfg pending st =
     (case scrape_loop e cfg 1 pending st of
        (r, st1) \<Rightarrow>
          (if r = Some KeyboardInterrupt then None else r,
           save_checkpoint cfg (clock e (Suc (length pending))) st1))"

text \<open>\<^verbatim>\<open>SteamSpyScraper.run\<close>: \<open>None\<close> when it returns, \<open>Some ex\<close> when it raises.\<close>

definition run ::
  "json env \<Rightarrow> scraper_config \<Rightarrow> scraper_state \<Rightarrow> exn option \<times> scraper_state" where
  "run e cfg st0 =
     (let st = st0\<lparr>checkpoint := mark_started (clock e 0) (checkpoint st0)\<rparr>;
          loaded = (if app_ids_to_scrape (checkpoint st) = []
                    then load_app_ids_from_steam_checkpoint cfg st else Inr (True, st))
      in case loaded of
           Inl ex \<Rightarrow> (Some ex, st)
         | Inr (False, st1) \<Rightarrow> (None, st1)
         | Inr (True, st1) \<Rightarrow>
             let pending = get_pending (checkpoint st1)
             in if pending = [] then (None, st1)
                else try_scrape e cfg
                       (if test_mode cfg then py_take (test_limit cfg) pending else pending) st1)"

section \<open>steam\_store\_scraper\_v2.py\<close>

text \<open>
  \<^verbatim>\<open>SteamStoreAPI.get_store_data\<close>. The body of a response is the HTML text;
  \<open>parse\<close> stands for \<^verbatim>\<open>StorePageParser.parse\<close>, which gives a dict or nothing.
\<close>

fun store_attempts ::
  "(string \<Rightarrow> json option) \<Rightarrow> (nat \<Rightarrow> string transport) \<Rightarrow> appid \<Rightarrow> nat \<Rightarrow> nat
     \<Rightarrow> (exn + json option) \<times> nat" where
  "store_attempts parse nt appid k 0 =
     (Inl (RequestException (''Max retries exceeded for appid '' @ str_int appid)), k)"
| "store_attempts parse nt appid k (Suc n) =
     (case nt k of
        Response status_code text \<Rightarrow>
          if status_code = 200 then (Inr (parse text), Suc k)
          else if status_code = 404 then (Inr None, Suc k)
          else if status_code = 429 then store_attempts parse nt appid (Suc k) n
          else if status_code = 403 then store_attempts parse nt appid (Suc k) n
          else (Inr None, Suc k)
      | Timeout \<Rightarrow> store_attempts parse nt appid (Suc k) n
      | RequestError msg \<Rightarrow> (Inl (RequestException msg), Suc k)
      | Interrupt \<Rightarrow> (Inl KeyboardInterrupt, Suc k))"

definition get_store_data ::
  "scraper_config \<Rightarrow> (string \<Rightarrow> json option) \<Rightarrow> (nat \<Rightarrow> string transport) \<Rightarrow> appid
     \<Rightarrow> (exn + json option) \<times> nat" where
  "get_store_data cfg parse nt appid = store_attempts parse nt appid 0 (nat (max_retries cfg))"

section \<open>steam\_api\_scraper\_v2.py\<close>

text \<open>
  \<^verbatim>\<open>SteamAPICheckpoint.get_pending\<close>: the universe arrives as a set, and the result
  is \<^verbatim>\<open>list(all_app_ids - processed)\<close>.
\<close>

definition get_pending_v2 ::
  "(appid list \<Rightarrow> appid list) \<Rightarrow> steam_api_checkpoint \<Rightarrow> appid list \<Rightarrow> appid list" where
  "get_pending_v2 order c all_app_ids =
     (let processed = set (map fst (apps_data c)) \<union> excluded_apps c \<union> error_apps c
      in list_of_set order (filter (\<lambda>appid. appid \<notin> processed) all_app_ids))"

text \<open>
  \<^verbatim>\<open>SteamAPI.get_app_details\<close> calls itself after a 429 or a 403; there is no
  \<^verbatim>\<open>try\<close>. \<open>k\<close> requests have been made; \<open>d\<close> is the recursion depth that the
  interpreter still allows. \<^verbatim>\<open>data.get(str(appid))\<close> needs a dict; a JSON
  \<^verbatim>\<open>null\<close> under the key is Python's \<^verbatim>\<open>None\<close>.
\<close>

fun lookup_appid :: "json \<Rightarrow> appid \<Rightarrow> exn + json option" where
  "lookup_appid (JObj kvs) appid =
     (case map_of kvs (str_int appid) of
        None \<Rightarrow> Inr None
      | Some JNull \<Rightarrow> Inr None
      | Some details \<Rightarrow> Inr (Some details))"
| "lookup_appid data appid = Inl AttributeError"

fun get_app_details_v2 ::
  "(nat \<Rightarrow> json transport) \<Rightarrow> appid \<Rightarrow> nat \<Rightarrow> nat \<Rightarrow> (exn + json option) \<times> nat" where
  "get_app_details_v2 nt appid k 0 = (Inl RecursionError, k)"
| "get_app_details_v2 nt appid k (Suc d) =
     (case nt k of
        Response status_code body \<Rightarrow>
          if status_code = 200 then (lookup_appid body appid, Suc k)
          else if status_code = 429 then get_app_details_v2 nt appid (Suc k) d
          else if status_code = 403 then get_app_details_v2 nt appid (Suc k) d
          else (Inr None, Suc k)
      | Timeout \<Rightarrow> (Inl (RequestException ''timed out''), Suc k)
      | RequestError msg \<Rightarrow> (Inl (RequestException msg), Suc k)
      | Interrupt \<Rightarrow> (Inl KeyboardInterrupt, Suc k))"

text \<open>
  \<^verbatim>\<open>SteamAPICheckpoint()\<close>, all fields at their defaults.
\<close>

definition new_steam_api_checkpoint :: steam_api_checkpoint where
  "new_steam_api_checkpoint =
     \<lparr>started_at = None, last_saved_at = None, apps_data = [], excluded_apps = {}, error_apps = {}\<rparr>"









section \<open>steam\_api\_scraper.py\<close>

text \<open>
  The first version keeps its progress in three attributes of the scraper and pickles each
  into a file of its own, with a \<^verbatim>\<open>CheckpointManager\<close> of its own that only dumps.
\<close>

record scraper_state_v1 =
  apps_data_v1 :: "(appid \<times> json) list"
  excluded_apps_v1 :: "appid set"
  error_apps_v1 :: "appid set"
  files_v1 :: filesystem



definition get_remaining_apps ::
  "(appid list \<Rightarrow> appid list) \<Rightarrow> scraper_state_v1 \<Rightarrow> appid list \<Rightarrow> appid list" where
  "get_remaining_apps order st all_apps =
     (let all_ids = set_of_list all_apps;
          processed = set (map fst (apps_data_v1 st)) \<union> excluded_apps_v1 st \<union> error_apps_v1 st;
          remaining = filter (\<lambda>appid. appid \<notin> processed) all_ids
      in list_of_set order remaining)"





section \<open>steam\_tags\_scraper.py\<close>









section \<open>insert\_app\_details.py\<close>

text \<open>
  A raw item is the dict that the Steam API scraper stored for one app. The record holds
  what \<^verbatim>\<open>prepare_data\<close> reads from it, decoded: each field is the value of the
  \<^verbatim>\<open>get\<close> call named beside it, and an entry of \<^verbatim>\<open>genres\<close> or
  \<^verbatim>\<open>categories\<close> is the pair \<^verbatim>\<open>(int(x['id']), x['description'])\<close>. Items whose
  entries lack a key or carry an id that \<^verbatim>\<open>int\<close> rejects are outside this type.
  Names are compared for equality only.
\<close>

datatype age_value = AgeNone | AgeInt int | AgeStr "nat list" | AgeOther

record raw_app =
  app_type :: "string option" \<comment> \<open>\<^verbatim>\<open>raw.get('type')\<close>\<close>
  app_name :: "string option" \<comment> \<open>\<^verbatim>\<open>raw.get('name')\<close>\<close>
  is_free :: bool \<comment> \<open>\<^verbatim>\<open>raw.get('is_free', False)\<close>\<close>
  release_text :: string \<comment> \<open>\<^verbatim>\<open>release_info.get('date', '')\<close>\<close>
  coming_soon :: bool \<comment> \<open>\<^verbatim>\<open>release_info.get('coming_soon', False)\<close>\<close>
  windows :: bool
  mac :: bool
  linux :: bool
  metacritic_score :: "int option"
  recommendations_total :: "int option"
  required_age :: age_value \<comment> \<open>\<^verbatim>\<open>raw.get('required_age')\<close>, a string as code points\<close>
  raw_genres :: "(int \<times> string) list"
  raw_categories :: "(int \<times> string) list"
  raw_developers :: "string list"
  raw_publishers :: "string list"

text \<open>
  What the pipeline takes from the interpreter and the standard library:
  \<open>strptime_ymd s fmt\<close> is \<^verbatim>\<open>datetime.strptime(s, fmt).strftime("%Y-%m-%d")\<close>, or
  nothing when \<^verbatim>\<open>strptime\<close> raises \<^verbatim>\<open>ValueError\<close>; \<open>py_int\<close> is \<^verbatim>\<open>int\<close> on a
  string, or nothing when it raises; \<open>order_pairs\<close> and \<open>order_names\<close> are the iteration
  orders of a set of tuples and of a set of strings.
\<close>

record py_runtime =
  strptime_ymd :: "string \<Rightarrow> string \<Rightarrow> string option"
  py_int :: "nat list \<Rightarrow> int option"
  order_pairs :: "(appid \<times> int) list \<Rightarrow> (appid \<times> int) list"
  order_names :: "string list \<Rightarrow> string list"

fun try_formats :: "(string \<Rightarrow> string \<Rightarrow> string option) \<Rightarrow> string \<Rightarrow> string list \<Rightarrow> string option" where
  "try_formats strp date_str [] = None"
| "try_formats strp date_str (fmt # formats) =
     (case strp date_str fmt of
        Some d \<Rightarrow> Some d
      | None \<Rightarrow> try_formats strp date_str formats)"

definition parse_release_date :: "py_runtime \<Rightarrow> string \<Rightarrow> string option" where
  "parse_release_date rt date_str =
     (if date_str = [] then None
      else try_formats (strptime_ymd rt) date_str
             [''%d %b, %Y'', ''%b %d, %Y'', ''%b %Y'', ''%Y''])"

text \<open>The full-width digits U+FF10 to U+FF19 are mapped to the ASCII digits.\<close>

definition translate_digit :: "nat \<Rightarrow> nat" where
  "translate_digit c = (if 65296 \<le> c \<and> c \<le> 65305 then c - 65248 else c)"

fun parse_required_age :: "py_runtime \<Rightarrow> age_value \<Rightarrow> int" where
  "parse_required_age rt AgeNone = 0"
| "parse_required_age rt (AgeInt i) = i"
| "parse_required_age rt (AgeStr s) =
     (case py_int rt (map translate_digit s) of Some i \<Rightarrow> i | None \<Rightarrow> 0)"
| "parse_required_age rt AgeOther = 0"

type_synonym game_row =
  "appid \<times> string option \<times> bool \<times> string option \<times> bool \<times> bool \<times> bool \<times> bool
     \<times> int option \<times> int option \<times> int"

text \<open>
  The variables of \<^verbatim>\<open>prepare_data\<close>. Up to the end of the loop
  \<^verbatim>\<open>developers\<close> and \<^verbatim>\<open>publishers\<close> are sets and \<^verbatim>\<open>game_categories\<close> is the
  list of all pairs appended; the three are turned into the lists of the result after the
  loop.
\<close>

record prepared =
  games :: "game_row list"
  genres :: "(int \<times> string) list"
  categories :: "(int \<times> string) list"
  developers :: "string list"
  publishers :: "string list"
  game_genres :: "(appid \<times> int) list"
  game_categories :: "(appid \<times> int) list"
  game_developers :: "(appid \<times> string) list"
  game_publishers :: "(appid \<times> string) list"

record prepare_vars = prepared +
  category_name_to_id :: "(string \<times> int) list"

definition initial_vars :: prepare_vars where
  "initial_vars =
     \<lparr>games = [], genres = [], categories = [], developers = [], publishers = [],
      game_genres = [], game_categories = [], game_developers = [], game_publishers = [],
      category_name_to_id = []\<rparr>"

definition make_game_row :: "py_runtime \<Rightarrow> appid \<Rightarrow> raw_app \<Rightarrow> game_row" where
  "make_game_row rt appid raw =
     (appid, app_name raw, is_free raw,
      (if \<not> coming_soon raw then parse_release_date rt (release_text raw) else None),
      coming_soon raw, windows raw, mac raw, linux raw,
      metacritic_score raw, recommendations_total raw,
      parse_required_age rt (required_age raw))"

definition add_genre :: "appid \<Rightarrow> prepare_vars \<Rightarrow> int \<times> string \<Rightarrow> prepare_vars" where
  "add_genre appid v genre =
     (case genre of (gid, description) \<Rightarrow>
        v\<lparr>genres := AList.update gid description (genres v),
          game_genres := game_genres v @ [(appid, gid)]\<rparr>)"

text \<open>
  The category loop. After the \<^verbatim>\<open>if\<close> the name is a key of
  \<^verbatim>\<open>category_name_to_id\<close>, so the lookup of the canonical id finds it.
\<close>

definition add_category :: "appid \<Rightarrow> prepare_vars \<Rightarrow> int \<times> string \<Rightarrow> prepare_vars" where
  "add_category appid v cat =
     (case cat of (cid, name) \<Rightarrow>
        let v1 = (if name \<notin> set (map fst (category_name_to_id v))
                  then v\<lparr>categories := AList.update cid name (categories v),
                         category_name_to_id := AList.update name cid (category_name_to_id v)\<rparr>
                  else v);
            canonical_id = (case map_of (category_name_to_id v1) name of
                              Some c \<Rightarrow> c | None \<Rightarrow> cid)
        in v1\<lparr>game_categories := game_categories v1 @ [(appid, canonical_id)]\<rparr>)"

definition add_developer :: "appid \<Rightarrow> prepare_vars \<Rightarrow> string \<Rightarrow> prepare_vars" where
  "add_developer appid v dev =
     v\<lparr>developers := set_add dev (developers v),
       game_developers := game_developers v @ [(appid, dev)]\<rparr>"

definition add_publisher :: "appid \<Rightarrow> prepare_vars \<Rightarrow> string \<Rightarrow> prepare_vars" where
  "add_publisher appid v pub =
     v\<lparr>publishers := set_add pub (publishers v),
       game_publishers := game_publishers v @ [(appid, pub)]\<rparr>"

text \<open>
  The body of the loop over \<^verbatim>\<open>data.items()\<close>. An item that is empty or absent
  (\<open>None\<close>) or whose type is not \<^verbatim>\<open>'game'\<close> is skipped.
\<close>

definition is_game :: "raw_app option \<Rightarrow> bool" where
  "is_game raw = (case raw of None \<Rightarrow> False | Some r \<Rightarrow> app_type r = Some ''game'')"

definition process_app :: "py_runtime \<Rightarrow> prepare_vars \<Rightarrow> appid \<times> raw_app option \<Rightarrow> prepare_vars" where
  "process_app rt v item =
     (case item of
        (appid, None) \<Rightarrow> v
      | (appid, Some raw) \<Rightarrow>
          if app_type raw \<noteq> Some ''game'' then v
          else
            let v1 = v\<lparr>games := games v @ [make_game_row rt appid raw]\<rparr>;
                v2 = foldl (add_genre appid) v1 (raw_genres raw);
                v3 = foldl (add_category appid) v2 (raw_categories raw);
                v4 = foldl (add_developer appid) v3 (raw_developers raw)
            in foldl (add_publisher appid) v4 (raw_publishers raw))"

definition prepare_data :: "py_runtime \<Rightarrow> (appid \<times> raw_app option) list \<Rightarrow> prepared" where
  "prepare_data rt data =
     (let v = foldl (process_app rt) initial_vars data
      in \<lparr>games = games v,
          genres = genres v,
          categories = categories v,
          developers = list_of_set (order_names rt) (developers v),
          publishers = list_of_set (order_names rt) (publishers v),
          game_genres = game_genres v,
          game_categories = list_of_set (order_pairs rt) (set_of_list (game_categories v)),
          game_developers = game_developers v,
          game_publishers = game_publishers v\<rparr>)"

section \<open>insert\_tags.py\<close>

text \<open>
  A record of the JSONL file, decoded: \<open>rec_tags\<close> is
  \<^verbatim>\<open>record.get('data', {}).get('tags', [])\<close> with each tag as
  \<^verbatim>\<open>(tag['tagid'], tag['name'], tag.get('count', 0))\<close>; the empty list also stands for
  any other false value there.
\<close>

record tag_record =
  rec_appid :: appid
  rec_scraped_at :: "string option"
  rec_tags :: "(int \<times> string \<times> int) list"

type_synonym game_tag = "appid \<times> int \<times> int \<times> string option"

record tag_vars =
  tags :: "(int \<times> string) list"
  game_tags :: "game_tag list"
  apps_processed :: nat
  apps_skipped_no_tags :: nat
  duplicate_tag_names :: "(string \<times> nat) list"

record tag_stats =
  stat_apps_processed :: nat
  stat_apps_skipped_no_tags :: nat
  unique_tags :: nat
  total_game_tag_rows :: nat
  stat_duplicate_tag_names :: "(string \<times> nat) list option"

record prepared_tags =
  tag_rows :: "(int \<times> string) list"
  game_tag_rows :: "game_tag list"
  stats :: tag_stats

definition initial_tag_vars :: tag_vars where
  "initial_tag_vars =
     \<lparr>tags = [], game_tags = [], apps_processed = 0, apps_skipped_no_tags = 0,
      duplicate_tag_names = []\<rparr>"

text \<open>
  The inner loop, lines 85 to 98. \<^verbatim>\<open>existing_id\<close> is the first id of \<^verbatim>\<open>tags\<close> that
  has the name; the list it is taken from is not empty when the test before it holds.
\<close>

definition add_tag :: "appid \<Rightarrow> string option \<Rightarrow> tag_vars \<Rightarrow> int \<times> string \<times> int \<Rightarrow> tag_vars" where
  "add_tag appid scraped_at v tag =
     (case tag of (tagid, name, votes) \<Rightarrow>
        let dup = (name \<in> set (map snd (filter (\<lambda>t. fst t \<noteq> tagid) (tags v))));
            tagid1 = (if dup
                      then (case map fst (filter (\<lambda>t. snd t = name) (tags v)) of
                              existing_id # _ \<Rightarrow> existing_id | [] \<Rightarrow> tagid)
                      else tagid);
            counter = (if dup
                       then AList.update name
                              (Suc (case map_of (duplicate_tag_names v) name of None \<Rightarrow> 0 | Some n \<Rightarrow> n))
                              (duplicate_tag_names v)
                       else duplicate_tag_names v)
        in v\<lparr>tags := AList.update tagid1 name (tags v),
             game_tags := game_tags v @ [(appid, tagid1, votes, scraped_at)],
             duplicate_tag_names := counter\<rparr>)"

definition process_record :: "tag_vars \<Rightarrow> tag_record \<Rightarrow> tag_vars" where
  "process_record v r =
     (if rec_tags r = [] then v\<lparr>apps_skipped_no_tags := Suc (apps_skipped_no_tags v)\<rparr>
      else foldl (add_tag (rec_appid r) (rec_scraped_at r))
             (v\<lparr>apps_processed := Suc (apps_processed v)\<rparr>) (rec_tags r))"

text \<open>Lines 100 to 107: the first row of every \<^verbatim>\<open>(appid, tagid)\<close> key is kept.\<close>

fun dedupe :: "(appid \<times> int) set \<Rightarrow> game_tag list \<Rightarrow> game_tag list \<Rightarrow> game_tag list" where
  "dedupe seen game_tags_deduped [] = game_tags_deduped"
| "dedupe seen game_tags_deduped (gt # rest) =
     (let key = (fst gt, fst (snd gt))
      in if key \<notin> seen then dedupe (insert key seen) (game_tags_deduped @ [gt]) rest
         else dedupe seen game_tags_deduped rest)"

definition prepare_tag_data :: "tag_record list \<Rightarrow> prepared_tags" where
  "prepare_tag_data records =
     (let v = foldl process_record initial_tag_vars records;
          game_tags_deduped = dedupe {} [] (game_tags v)
      in \<lparr>tag_rows = tags v,
          game_tag_rows = game_tags_deduped,
          stats = \<lparr>stat_apps_processed = apps_processed v,
                   stat_apps_skipped_no_tags = apps_skipped_no_tags v,
                   unique_tags = length (tags v),
                   total_game_tag_rows = length game_tags_deduped,
                   stat_duplicate_tag_names =
                     (if duplicate_tag_names v = [] then None else Some (duplicate_tag_names v))\<rparr>\<rparr>)"

section \<open>Notions used in the statements\<close>

text \<open>
  The set \<^verbatim>\<open>done\<close> that \<^verbatim>\<open>get_pending\<close> computes, and the checkpoint after the
  first \<open>n\<close> iterations of the loop of \<^verbatim>\<open>SteamSpyScraper.run\<close> over the pending ids
  of a state (the list that \<^verbatim>\<open>run\<close> iterates over is a prefix of them in test mode).
\<close>

definition done_ids :: "harvest_checkpoint \<Rightarrow> appid set" where
  "done_ids c = completed_ids c \<union> no_data_ids c \<union> dom (failed_ids c)"

definition partitions_disjoint :: "harvest_checkpoint \<Rightarrow> bool" where
  "partitions_disjoint c =
     (completed_ids c \<inter> no_data_ids c = {} \<and>
      completed_ids c \<inter> dom (failed_ids c) = {} \<and>
      no_data_ids c \<inter> dom (failed_ids c) = {})"

definition checkpoint_after :: "json env \<Rightarrow> scraper_config \<Rightarrow> nat \<Rightarrow> scraper_state \<Rightarrow> harvest_checkpoint" where
  "checkpoint_after e cfg n st =
     checkpoint (snd (scrape_loop e cfg 1 (take n (get_pending (checkpoint st))) st))"

text \<open>
  The outcomes of a request after which a retry loop goes on to its next iteration:
  \<open>retried\<close> for \<^verbatim>\<open>SteamSpyAPI.get_app_details\<close> (429 and timeouts),
  \<open>retried_store\<close> for \<^verbatim>\<open>SteamStoreAPI.get_store_data\<close> (429, 403 and timeouts).
\<close>

fun retried :: "'b transport \<Rightarrow> bool" where
  "retried (Response status_code body) = (status_code = 429)"
| "retried Timeout = True"
| "retried (RequestError msg) = False"
| "retried Interrupt = False"

fun retried_store :: "'b transport \<Rightarrow> bool" where
  "retried_store (Response status_code body) = (status_code = 429 \<or> status_code = 403)"
| "retried_store Timeout = True"
| "retried_store (RequestError msg) = False"
| "retried_store Interrupt = False"


text \<open>
  The input of \<^verbatim>\<open>prepare_data\<close> read as sequences: the items that pass the type
  gate, and for a list-valued field the entries of all those items in input order, each
  with the id of its app.
\<close>

definition item_entries :: "(raw_app \<Rightarrow> 'a list) \<Rightarrow> appid \<times> raw_app option \<Rightarrow> (appid \<times> 'a) list" where
  "item_entries sel item =
     (case item of
        (appid, None) \<Rightarrow> []
      | (appid, Some raw) \<Rightarrow>
          if app_type raw = Some ''game'' then map (Pair appid) (sel raw) else [])"

definition entries_of :: "(raw_app \<Rightarrow> 'a list) \<Rightarrow> (appid \<times> raw_app option) list \<Rightarrow> (appid \<times> 'a) list" where
  "entries_of sel data = concat (map (item_entries sel) data)"

definition game_items :: "(appid \<times> raw_app option) list \<Rightarrow> (appid \<times> raw_app) list" where
  "game_items data =
     concat (map (\<lambda>item. case item of
                     (appid, None) \<Rightarrow> []
                   | (appid, Some raw) \<Rightarrow> if app_type raw = Some ''game'' then [(appid, raw)] else [])
               data)"

text \<open>
  \<open>first_encounter_order xs ys\<close>: the list \<open>ys\<close> holds every element of \<open>xs\<close> once,
  in the order in which the elements first occur in \<open>xs\<close>.
\<close>

fun first_index :: "'a list \<Rightarrow> 'a \<Rightarrow> nat" where
  "first_index [] a = 0"
| "first_index (x # xs) a = (if x = a then 0 else Suc (first_index xs a))"

definition first_encounter_order :: "'a list \<Rightarrow> 'a list \<Rightarrow> bool" where
  "first_encounter_order xs ys =
     (distinct ys \<and> set ys = set xs \<and>
      sorted_wrt (\<lambda>a b. first_index xs a < first_index xs b) ys)"

text \<open>
  The numeric id first observed for a category name in a sequence of category entries,
  and the entries that bring a name not seen before (those are the entries that write a
  row of the categories table).
\<close>

definition first_id_for :: "(appid \<times> int \<times> string) list \<Rightarrow> string \<Rightarrow> int option" where
  "first_id_for entries name = map_of (map (\<lambda>(appid, cid, n). (n, cid)) entries) name"

fun registrations :: "string set \<Rightarrow> (appid \<times> int \<times> string) list \<Rightarrow> (int \<times> string) list" where
  "registrations seen [] = []"
| "registrations seen ((appid, cid, name) # entries) =
     (if name \<in> seen then registrations seen entries
      else (cid, name) # registrations (insert name seen) entries)"

text \<open>
  The same for the tag records: the tags of all records in input order, each with the
  app id and the time stamp of its record; the tag id first observed for a name; the
  condition that no tag id occurs with two names; the key on which the junction rows are
  deduplicated; and the junction row of an entry with the first-observed id of its name.
\<close>

type_synonym tag_entry = "appid \<times> string option \<times> int \<times> string \<times> int"

definition tag_entries :: "tag_record list \<Rightarrow> tag_entry list" where
  "tag_entries records =
     concat (map (\<lambda>r. map (\<lambda>t. (rec_appid r, rec_scraped_at r, t)) (rec_tags r)) records)"

definition first_tag_id :: "tag_entry list \<Rightarrow> string \<Rightarrow> int option" where
  "first_tag_id entries name = map_of (map (\<lambda>(appid, scraped_at, tagid, n, votes). (n, tagid)) entries) name"

definition consistent_names :: "tag_entry list \<Rightarrow> bool" where
  "consistent_names entries =
     (\<forall>e\<in>set entries. \<forall>e'\<in>set entries.
        fst (snd (snd e)) = fst (snd (snd e')) \<longrightarrow> fst (snd (snd (snd e))) = fst (snd (snd (snd e'))))"

definition tag_key :: "game_tag \<Rightarrow> appid \<times> int" where
  "tag_key gt = (fst gt, fst (snd gt))"

definition tag_name :: "tag_entry \<Rightarrow> string" where
  "tag_name e = fst (snd (snd (snd e)))"

definition tag_id :: "tag_entry \<Rightarrow> int" where
  "tag_id e = fst (snd (snd e))"

definition canonical_row :: "tag_entry list \<Rightarrow> tag_entry \<Rightarrow> game_tag" where
  "canonical_row entries e =
     (case e of (appid, scraped_at, tagid, name, votes) \<Rightarrow>
        (appid, the (first_tag_id entries name), votes, scraped_at))"

section \<open>Notions used in the proofs\<close>

text \<open>
  What one iteration of the run loop may do to the partitions of the checkpoint.
\<close>

definition step_ok :: "appid \<Rightarrow> harvest_checkpoint \<Rightarrow> harvest_checkpoint \<Rightarrow> bool" where
  "step_ok appid c c' =
     (app_ids_to_scrape c' = app_ids_to_scrape c \<and>
      ((completed_ids c' = completed_ids c \<and> no_data_ids c' = no_data_ids c \<and> dom (failed_ids c') = dom (failed_ids c))
       \<or> (completed_ids c' = insert appid (completed_ids c) \<and> no_data_ids c' = no_data_ids c \<and> dom (failed_ids c') = dom (failed_ids c))
       \<or> (completed_ids c' = completed_ids c \<and> no_data_ids c' = insert appid (no_data_ids c) \<and> dom (failed_ids c') = dom (failed_ids c))
       \<or> (completed_ids c' = completed_ids c \<and> no_data_ids c' = no_data_ids c \<and> dom (failed_ids c') = insert appid (dom (failed_ids c)))))"

text \<open>
  The loops of the two \<^verbatim>\<open>prepare_data\<close> functions, restricted to the variables
  that belong together, as functions of the entry sequences: the genres dict; the
  categories dict, \<^verbatim>\<open>category_name_to_id\<close> and \<^verbatim>\<open>game_categories\<close>; the tags dict and
  \<^verbatim>\<open>game_tags\<close>. The invariants relate these variables to the entries processed so far.
\<close>

definition genre_step :: "(int \<times> string) list \<Rightarrow> appid \<times> int \<times> string \<Rightarrow> (int \<times> string) list" where
  "genre_step al e = (case e of (appid, gid, description) \<Rightarrow> AList.update gid description al)"

definition category_step ::
  "(int \<times> string) list \<times> (string \<times> int) list \<times> (appid \<times> int) list \<Rightarrow> appid \<times> int \<times> string
     \<Rightarrow> (int \<times> string) list \<times> (string \<times> int) list \<times> (appid \<times> int) list" where
  "category_step t e =
     (case (t, e) of ((C, N, J), (appid, cid, name)) \<Rightarrow>
        if name \<notin> set (map fst N)
        then (AList.update cid name C, AList.update name cid N, J @ [(appid, cid)])
        else (C, N, J @ [(appid, case map_of N name of Some c \<Rightarrow> c | None \<Rightarrow> cid)]))"

definition cat_of :: "prepare_vars \<Rightarrow> (int \<times> string) list \<times> (string \<times> int) list \<times> (appid \<times> int) list" where
  "cat_of v = (categories v, category_name_to_id v, game_categories v)"

definition cat_inv ::
  "(appid \<times> int \<times> string) list \<Rightarrow> (int \<times> string) list \<times> (string \<times> int) list \<times> (appid \<times> int) list \<Rightarrow> bool" where
  "cat_inv E t =
     (case t of (C, N, J) \<Rightarrow>
        map_of N = first_id_for E
        \<and> J = map (\<lambda>(a, c, n). (a, the (first_id_for E n))) E
        \<and> distinct (map snd C)
        \<and> snd ` set C \<subseteq> (\<lambda>e. snd (snd e)) ` set E
        \<and> map fst C = foldl (\<lambda>s x. set_add x s) [] (map fst (registrations {} E)))"

definition tag_step :: "(int \<times> string) list \<times> game_tag list \<Rightarrow> tag_entry \<Rightarrow> (int \<times> string) list \<times> game_tag list" where
  "tag_step t e =
     (case (t, e) of ((T, GT), (appid, scraped_at, tagid, name, votes)) \<Rightarrow>
        let tagid1 = (if name \<in> set (map snd (filter (\<lambda>t. fst t \<noteq> tagid) T))
                      then (case map fst (filter (\<lambda>t. snd t = name) T) of
                              existing_id # _ \<Rightarrow> existing_id | [] \<Rightarrow> tagid)
                      else tagid)
        in (AList.update tagid1 name T, GT @ [(appid, tagid1, votes, scraped_at)]))"

definition tag_inv :: "tag_entry list \<Rightarrow> (int \<times> string) list \<times> game_tag list \<Rightarrow> bool" where
  "tag_inv E t =
     (case t of (T, GT) \<Rightarrow>
        distinct (map fst T) \<and> distinct (map snd T)
        \<and> map (\<lambda>(a, t, v, s). (a, v, s)) GT = map (\<lambda>(a, s, t, n, v). (a, v, s)) E
        \<and> map fst T = foldl (\<lambda>s x. set_add x s) [] (map (\<lambda>g. fst (snd g)) GT))"

definition canon_inv :: "tag_entry list \<Rightarrow> (int \<times> string) list \<times> game_tag list \<Rightarrow> bool" where
  "canon_inv E t =
     (case t of (T, GT) \<Rightarrow>
        set T = (\<lambda>n. (the (first_tag_id E n), n)) ` tag_name ` set E
        \<and> GT = map (canonical_row E) E)"

section \<open>Concrete inputs\<close>

text \<open>The inputs at which the properties below are evaluated.\<close>

definition example_manager :: checkpoint_manager where
  "example_manager = \<lparr>directory = ''checkpoints''\<rparr>"

definition empty_fs :: filesystem where
  "empty_fs = Map.empty"

definition default_config :: scraper_config where
  "default_config =
     \<lparr>checkpoint_dir = ''checkpoints'', steam_checkpoint_file = ''checkpoints/apps_data.pkl'',
      checkpoint_interval = 100, max_retries = 3, test_mode = False, test_limit = 20\<rparr>"

definition duplicate_state :: scraper_state where
  "duplicate_state =
     \<lparr>checkpoint = new_harvest_checkpoint\<lparr>app_ids_to_scrape := [7, 7], completed_ids := {5}\<rparr>,
      files = empty_fs, output_file = []\<rparr>"

definition duplicate_env :: "json env" where
  "duplicate_env =
     \<lparr>net = (\<lambda>i k. if i = 1 then Response 200 (JObj [(''name'', JStr ''Portal'')])
                     else Response 500 JNull),
      clock = (\<lambda>i. int i), sleep_interrupted = (\<lambda>i. False), recursion_limit = 1000\<rparr>"

definition three_ids_state :: scraper_state where
  "three_ids_state =
     \<lparr>checkpoint = new_harvest_checkpoint\<lparr>app_ids_to_scrape := [1, 2, 3]\<rparr>,
      files = empty_fs, output_file = []\<rparr>"

definition three_ids_env :: "json env" where
  "three_ids_env =
     \<lparr>net = (\<lambda>i k. if i = 1 then Response 200 (JObj [(''name'', JStr ''Portal'')])
                     else if i = 2 then Response 404 JNull
                     else RequestError ''connection reset''),
      clock = (\<lambda>i. int i), sleep_interrupted = (\<lambda>i. False), recursion_limit = 1000\<rparr>"








definition empty_state_v1 :: scraper_state_v1 where
  "empty_state_v1 = \<lparr>apps_data_v1 = [], excluded_apps_v1 = {}, error_apps_v1 = {}, files_v1 = empty_fs\<rparr>"


definition rate_limited_net :: "nat \<Rightarrow> json transport" where
  "rate_limited_net k =
     (if k < 4 then Response 429 JNull
      else Response 200 (JObj [(''10'', JObj [(''success'', JBool True)])]))"

definition always_timeout :: "nat \<Rightarrow> json transport" where
  "always_timeout k = Timeout"

definition always_forbidden :: "nat \<Rightarrow> string transport" where
  "always_forbidden k = Response 403 ''''"

definition example_runtime :: py_runtime where
  "example_runtime =
     \<lparr>strptime_ymd = (\<lambda>s fmt. None), py_int = (\<lambda>s. None), order_pairs = rev, order_names = rev\<rparr>"

definition plain_game :: raw_app where
  "plain_game =
     \<lparr>app_type = Some ''game'', app_name = Some ''Half-Life'', is_free = False,
      release_text = [], coming_soon = False, windows = True, mac = False, linux = False,
      metacritic_score = None, recommendations_total = None, required_age = AgeNone,
      raw_genres = [], raw_categories = [], raw_developers = [], raw_publishers = []\<rparr>"



definition rpg_records :: "tag_record list" where
  "rpg_records =
     [\<lparr>rec_appid = 1, rec_scraped_at = None, rec_tags = [(10, ''RPG'', 5)]\<rparr>,
      \<lparr>rec_appid = 2, rec_scraped_at = None, rec_tags = [(99, ''RPG'', 7)]\<rparr>]"

definition unordered_data :: "(appid \<times> raw_app option) list" where
  "unordered_data =
     [(10, Some (plain_game\<lparr>raw_categories := [(2, ''Multi-player''), (1, ''Single-player'')],
                            raw_developers := [''Valve'', ''Hidden Path'']\<rparr>))]"

section \<open>Properties of the checkpoint store\<close>

lemma save_snd: "snd (save mgr now fs name v) = set_last_saved_at now v"
  by (cases v) (simp_all add: save_def Let_def)

lemma save_fst:
  "fst (save mgr now fs name v) = fs(get_path mgr name \<mapsto> Pickled (set_last_saved_at now v))"
  by (cases v) (simp_all add: save_def Let_def open_wb_def pickle_dump_def)



text \<open>
  C6. \<^verbatim>\<open>save\<close> is not atomic: it opens the target file itself for writing, which
  empties it, and then pickles into it. A save of \<open>{1, 2}\<close> that is cut short inside
  \<^verbatim>\<open>pickle.dump\<close>, after a complete save of \<open>{1}\<close> under the same name, leaves a
  file from which \<^verbatim>\<open>load\<close> raises: the last complete value is gone.
\<close>

theorem save_not_atomic_counterexample:
  "load example_manager
     (fst (save_interrupted example_manager 2
        (fst (save example_manager 1 empty_fs ''steamspy'' (PySet {1})))
        ''steamspy'' (PySet {1, 2})))
     ''steamspy'' None = Inl UnpicklingError"
  by (simp add: load_def save_interrupted_def open_wb_def Let_def)

text \<open>
  C6, as amended. A \<^verbatim>\<open>save\<close> that runs to its end replaces whatever was under the
  name: the file then holds the value saved, whatever it held before, and no other file
  changes. A \<^verbatim>\<open>save\<close> that is cut short after opening the file leaves the file
  truncated, and a \<^verbatim>\<open>load\<close> of the name raises instead of returning a value.
\<close>

theorem save_replaces_when_complete:
  "fst (save mgr now fs name v) (get_path mgr name) = Some (Pickled (snd (save mgr now fs name v)))
   \<and> fst (save mgr now fs name v) = fs(get_path mgr name \<mapsto> Pickled (set_last_saved_at now v))
   \<and> fst (save_interrupted mgr now fs name v) (get_path mgr name) = Some Truncated
   \<and> load mgr (fst (save_interrupted mgr now fs name v)) name t = Inl UnpicklingError"
  by (simp add: save_snd save_fst load_def save_interrupted_def open_wb_def Let_def)

text \<open>
  C10. When the value handed to \<^verbatim>\<open>save\<close> has a \<^verbatim>\<open>last_saved_at\<close> attribute, the
  caller's object after the call is the object before it with \<^verbatim>\<open>last_saved_at\<close> set
  to the current time and every other field as it was, and that stamped object is what
  the file holds. A value without the attribute is left as it is and pickled as it is.
\<close>

theorem save_stamps_last_saved_at:
  "(hasattr_last_saved_at v \<longrightarrow>
      snd (save mgr now fs name v) = set_last_saved_at now v \<and>
      fst (save mgr now fs name v) (get_path mgr name) = Some (Pickled (set_last_saved_at now v)))
   \<and> (\<not> hasattr_last_saved_at v \<longrightarrow>
      snd (save mgr now fs name v) = v \<and>
      fst (save mgr now fs name v) (get_path mgr name) = Some (Pickled v))
   \<and> snd (save mgr now fs name (SteamSpyCheckpoint c)) = SteamSpyCheckpoint (c\<lparr>last_saved_at := Some now\<rparr>)
   \<and> snd (save mgr now fs name (StorePageCheckpoint c)) = StorePageCheckpoint (c\<lparr>last_saved_at := Some now\<rparr>)
   \<and> snd (save mgr now fs name (SteamAPICheckpoint a)) = SteamAPICheckpoint (a\<lparr>last_saved_at := Some now\<rparr>)"
  by (cases v) (simp_all add: save_snd save_fst)

theorem save_stamps_last_saved_at_witness:
  "hasattr_last_saved_at (SteamSpyCheckpoint new_harvest_checkpoint)
   \<and> snd (save example_manager 7 empty_fs ''steamspy'' (SteamSpyCheckpoint new_harvest_checkpoint))
       = SteamSpyCheckpoint (new_harvest_checkpoint\<lparr>last_saved_at := Some 7\<rparr>)
   \<and> \<not> hasattr_last_saved_at (PySet {1})
   \<and> snd (save example_manager 7 empty_fs ''excluded_apps'' (PySet {1})) = PySet {1}
   \<and> fst (save example_manager 7 empty_fs ''excluded_apps'' (PySet {1}))
        (get_path example_manager ''excluded_apps'') = Some (Pickled (PySet {1}))"
  using save_stamps_last_saved_at [of "SteamSpyCheckpoint new_harvest_checkpoint"
          example_manager 7 empty_fs "''steamspy''"]
        save_stamps_last_saved_at [of "PySet {1}" example_manager 7 empty_fs "''excluded_apps''"]
  by simp

section \<open>Properties of the pending ids\<close>

lemma foldl_set_add:
  "set (foldl (\<lambda>s x. set_add x s) acc xs) = set acc \<union> set xs
   \<and> (distinct acc \<longrightarrow> distinct (foldl (\<lambda>s x. set_add x s) acc xs))"
  by (induction xs arbitrary: acc) (auto simp: set_add_def)

lemma set_set_of_list: "set (set_of_list xs) = set xs"
  by (simp add: set_of_list_def foldl_set_add)

lemma distinct_set_of_list: "distinct (set_of_list xs)"
  by (simp add: set_of_list_def foldl_set_add)

lemma iteration_order_set: "iteration_order order \<Longrightarrow> set (order s) = set s"
  by (metis iteration_order_def mset_eq_setD)

lemma iteration_order_distinct: "iteration_order order \<Longrightarrow> distinct (order s) = distinct s"
  by (metis iteration_order_def mset_eq_imp_distinct_iff)

lemma iteration_order_rev: "iteration_order rev"
  by (simp add: iteration_order_def)

lemma count_list_filter:
  "count_list (filter P xs) a = (if P a then count_list xs a else 0)"
  by (induction xs) auto

text \<open>
  C5. The claim fails where the universe is handled as a set. In the first version of
  the Steam API scraper the universe arrives as the list \<^verbatim>\<open>all_apps\<close>;
  \<^verbatim>\<open>get_remaining_apps\<close> collects its ids in a set and returns
  \<^verbatim>\<open>list(all_ids - processed)\<close>. For the universe sequence 2, 1 and nothing processed,
  an interpreter that iterates the set in the order 1, 2 (CPython does; \<open>rev\<close> is that
  order here) returns the two ids in the opposite relative order.
\<close>

theorem remaining_apps_order:
  "get_remaining_apps rev empty_state_v1 [2, 1] = [1, 2] \<and> \<not> subseq [1, 2] [2, 1::int]"
  by (simp add: get_remaining_apps_def empty_state_v1_def set_of_list_def set_add_def list_of_set_def)

text \<open>
  C5, as amended. For a checkpoint that holds the universe as a sequence
  (\<^verbatim>\<open>SteamSpyCheckpoint\<close>, \<^verbatim>\<open>StorePageCheckpoint\<close>), \<^verbatim>\<open>get_pending\<close> returns exactly
  the ids of the universe that are in none of completed, excluded and the keys of failed,
  in the relative order, and as often, as they occur in the universe sequence. The
  variants that handle the universe as a set (\<^verbatim>\<open>SteamAPICheckpoint.get_pending\<close>,
  \<^verbatim>\<open>get_remaining_apps\<close>) return exactly the ids of the universe that are in none of
  their three partitions, each once, in the iteration order of a set, whatever it is.
\<close>

theorem pending_ids:
  "subseq (get_pending c) (app_ids_to_scrape c)
   \<and> set (get_pending c)
       = set (app_ids_to_scrape c) - (completed_ids c \<union> no_data_ids c \<union> dom (failed_ids c))
   \<and> count_list (get_pending c) a
       = (if a \<in> completed_ids c \<union> no_data_ids c \<union> dom (failed_ids c) then 0
          else count_list (app_ids_to_scrape c) a)
   \<and> (iteration_order order \<longrightarrow>
        mset (get_pending_v2 order ca all_app_ids)
          = filter_mset (\<lambda>a. a \<notin> set (map fst (apps_data ca)) \<union> excluded_apps ca \<union> error_apps ca)
              (mset all_app_ids))
   \<and> (iteration_order order \<longrightarrow>
        distinct (get_remaining_apps order sta all_apps)
        \<and> set (get_remaining_apps order sta all_apps)
            = set all_apps - (set (map fst (apps_data_v1 sta)) \<union> excluded_apps_v1 sta \<union> error_apps_v1 sta))"
proof -
  have 1: "subseq (get_pending c) (app_ids_to_scrape c)"
    by (simp add: get_pending_def Let_def)
  have 2: "set (get_pending c)
       = set (app_ids_to_scrape c) - (completed_ids c \<union> no_data_ids c \<union> dom (failed_ids c))"
    by (auto simp: get_pending_def Let_def)
  have 3: "count_list (get_pending c) a
       = (if a \<in> completed_ids c \<union> no_data_ids c \<union> dom (failed_ids c) then 0
          else count_list (app_ids_to_scrape c) a)"
    unfolding get_pending_def Let_def count_list_filter by simp
  have 4: "mset (get_pending_v2 order ca all_app_ids)
          = filter_mset (\<lambda>a. a \<notin> set (map fst (apps_data ca)) \<union> excluded_apps ca \<union> error_apps ca)
              (mset all_app_ids)" if "iteration_order order"
    using that by (simp add: get_pending_v2_def list_of_set_def Let_def iteration_order_def)
  have 5: "distinct (get_remaining_apps order sta all_apps)
        \<and> set (get_remaining_apps order sta all_apps)
            = set all_apps - (set (map fst (apps_data_v1 sta)) \<union> excluded_apps_v1 sta \<union> error_apps_v1 sta)"
    if "iteration_order order"
    using that
    by (auto simp: get_remaining_apps_def list_of_set_def Let_def iteration_order_set
          iteration_order_distinct set_set_of_list distinct_set_of_list)
  from 1 2 3 4 5 show ?thesis by blast
qed

text \<open>
  The amended C5 at concrete states: \<open>rev\<close> is an iteration order, and with the id 3
  already processed the ids 2 and 1 of the universe 2, 3, 1 are returned.
\<close>

theorem pending_ids_witness:
  "iteration_order (rev :: appid list \<Rightarrow> appid list)
   \<and> mset (get_pending_v2 rev (new_steam_api_checkpoint\<lparr>excluded_apps := {3}\<rparr>) [2, 3, 1]) = {#2, 1#}
   \<and> set (get_remaining_apps rev (empty_state_v1\<lparr>error_apps_v1 := {3}\<rparr>) [2, 3, 1]) = {2, 1}"
  using pending_ids [of new_harvest_checkpoint 0 rev "new_steam_api_checkpoint\<lparr>excluded_apps := {3}\<rparr>"
          "[2, 3, 1]" "empty_state_v1\<lparr>error_apps_v1 := {3}\<rparr>" "[2, 3, 1]"]
  by (auto simp: iteration_order_rev new_steam_api_checkpoint_def empty_state_v1_def)

section \<open>Properties of the retry loops\<close>

lemma spy_attempts_bound: "snd (spy_attempts nt appid k n) \<le> k + n"
proof (induction n arbitrary: k)
  case 0
  then show ?case by simp
next
  case (Suc n)
  have "snd (spy_attempts nt appid (Suc k) n) \<le> Suc k + n" by (rule Suc.IH)
  then show ?case by (auto split: transport.split)
qed

lemma spy_attempts_exhausted:
  "(\<And>j. j < n \<Longrightarrow> retried (nt (k + j))) \<Longrightarrow>
   spy_attempts nt appid k n =
     (Inl (RequestException (''Max retries exceeded for appid '' @ str_int appid)), k + n)"
proof (induction n arbitrary: k)
  case 0
  then show ?case by simp
next
  case (Suc n)
  have r: "retried (nt k)" using Suc.prems [of 0] by simp
  have "\<And>j. j < n \<Longrightarrow> retried (nt (Suc k + j))" using Suc.prems [of "Suc _"] by simp
  from Suc.IH [OF this] r show ?case
    by (cases "nt k") (auto split: if_splits)
qed

lemma store_attempts_bound: "snd (store_attempts parse nt appid k n) \<le> k + n"
proof (induction n arbitrary: k)
  case 0
  then show ?case by simp
next
  case (Suc n)
  have "snd (store_attempts parse nt appid (Suc k) n) \<le> Suc k + n" by (rule Suc.IH)
  then show ?case by (auto split: transport.split)
qed

lemma store_attempts_exhausted:
  "(\<And>j. j < n \<Longrightarrow> retried_store (nt (k + j))) \<Longrightarrow>
   store_attempts parse nt appid k n =
     (Inl (RequestException (''Max retries exceeded for appid '' @ str_int appid)), k + n)"
proof (induction n arbitrary: k)
  case 0
  then show ?case by simp
next
  case (Suc n)
  have r: "retried_store (nt k)" using Suc.prems [of 0] by simp
  have "\<And>j. j < n \<Longrightarrow> retried_store (nt (Suc k + j))" using Suc.prems [of "Suc _"] by simp
  from Suc.IH [OF this] r show ?case
    by (cases "nt k") (auto split: if_splits)
qed

lemma get_app_details_v2_bound: "snd (get_app_details_v2 nt appid k d) \<le> k + d"
proof (induction d arbitrary: k)
  case 0
  then show ?case by simp
next
  case (Suc d)
  have "snd (get_app_details_v2 nt appid (Suc k) d) \<le> Suc k + d" by (rule Suc.IH)
  then show ?case by (auto split: transport.split)
qed

lemma str10: "str_int 10 = ''10''" by code_simp

lemma str570: "str_int 570 = ''570''" by code_simp

text \<open>
  C7. The claim fails for \<^verbatim>\<open>SteamAPI.get_app_details\<close> of the Steam API scraper (both
  versions have the same function): it calls itself after every 429 and every 403 and
  counts no attempts, and its script configures no \<^verbatim>\<open>max_retries\<close>. After four
  rate-limited responses and a 200 it has made five requests, more than the 3 that the
  other scrapers configure, and it returns the payload instead of raising.
\<close>

theorem unbounded_retries_v2:
  "get_app_details_v2 rate_limited_net 10 0 1000
     = (Inr (Some (JObj [(''success'', JBool True)])), 5)"
  by (simp add: rate_limited_net_def eval_nat_numeral str10)

text \<open>
  C7, as amended. The retry loops of \<^verbatim>\<open>SteamSpyAPI.get_app_details\<close> and of
  \<^verbatim>\<open>SteamStoreAPI.get_store_data\<close> make at most \<^verbatim>\<open>max_retries\<close> requests for a
  target id, whatever the responses are; when every one of these attempts ends in an
  outcome that is retried (429 or timeout, and 403 for the store pages), the function
  raises the \<^verbatim>\<open>RequestException\<close> "Max retries exceeded" after exactly
  \<^verbatim>\<open>max_retries\<close> requests. \<^verbatim>\<open>SteamAPI.get_app_details\<close> has no attempt counter: the
  number of its requests is limited by the recursion depth of the interpreter only.
\<close>

theorem retry_bound:
  "snd (get_app_details cfg nt appid) \<le> nat (max_retries cfg)
   \<and> snd (get_store_data cfg parse nt' appid) \<le> nat (max_retries cfg)
   \<and> ((\<forall>k < nat (max_retries cfg). retried (nt k)) \<longrightarrow>
        get_app_details cfg nt appid =
          (Inl (RequestException (''Max retries exceeded for appid '' @ str_int appid)),
           nat (max_retries cfg)))
   \<and> ((\<forall>k < nat (max_retries cfg). retried_store (nt' k)) \<longrightarrow>
        get_store_data cfg parse nt' appid =
          (Inl (RequestException (''Max retries exceeded for appid '' @ str_int appid)),
           nat (max_retries cfg)))
   \<and> snd (get_app_details_v2 nt appid 0 d) \<le> d"
  using spy_attempts_bound [of nt appid 0 "nat (max_retries cfg)"]
        store_attempts_bound [of parse nt' appid 0 "nat (max_retries cfg)"]
        spy_attempts_exhausted [of "nat (max_retries cfg)" nt 0 appid]
        store_attempts_exhausted [of "nat (max_retries cfg)" nt' 0 parse appid]
        get_app_details_v2_bound [of nt appid 0 d]
  by (simp add: get_app_details_def get_store_data_def)

text \<open>
  The amended C7 at concrete inputs: with the default \<^verbatim>\<open>max_retries\<close> of 3, a server
  that always times out and one that always answers 403 each get three requests, and
  then the exception is raised.
\<close>

theorem retry_bound_witness:
  "get_app_details default_config always_timeout 570 =
        (Inl (RequestException ''Max retries exceeded for appid 570''), 3)
   \<and> get_store_data default_config (\<lambda>text. None) always_forbidden 570 =
        (Inl (RequestException ''Max retries exceeded for appid 570''), 3)"
  using retry_bound [of default_config always_timeout 570 "\<lambda>text. None" always_forbidden 0]
  by (simp add: always_timeout_def always_forbidden_def default_config_def str570)

section \<open>Properties of the run loop\<close>

lemma set_get_pending: "set (get_pending c) = set (app_ids_to_scrape c) - done_ids c"
  by (auto simp: get_pending_def done_ids_def Let_def)

lemma checkpoint_save_checkpoint:
  "checkpoint (save_checkpoint cfg now st) = (checkpoint st)\<lparr>last_saved_at := Some now\<rparr>"
  by (simp add: save_checkpoint_def save_def Let_def)


lemma fetch_and_classify_step:
  "step_ok appid (checkpoint st) (checkpoint (snd (fetch_and_classify e cfg i appid st)))"
  by (simp add: fetch_and_classify_def step_ok_def append_result_def
           split: sum.split option.split exn.split)

lemma iteration_step:
  "step_ok appid (checkpoint st) (checkpoint (snd (iteration e cfg i appid st)))"
  using fetch_and_classify_step [of appid st e cfg i]
  by (cases "fetch_and_classify e cfg i appid st")
     (auto simp: iteration_def Let_def step_ok_def checkpoint_save_checkpoint split: option.split)

lemma step_ok_inv:
  assumes "step_ok appid c c'" "partitions_disjoint c" "appid \<notin> done_ids c"
  shows "partitions_disjoint c' \<and> done_ids c' \<subseteq> insert appid (done_ids c) \<and> done_ids c \<subseteq> done_ids c'"
proof -
  have sets: "\<And>C N F C' N' F' :: appid set.
    C \<inter> N = {} \<Longrightarrow> C \<inter> F = {} \<Longrightarrow> N \<inter> F = {} \<Longrightarrow> appid \<notin> C \<union> N \<union> F \<Longrightarrow>
    (C' = C \<and> N' = N \<and> F' = F) \<or> (C' = insert appid C \<and> N' = N \<and> F' = F)
      \<or> (C' = C \<and> N' = insert appid N \<and> F' = F) \<or> (C' = C \<and> N' = N \<and> F' = insert appid F) \<Longrightarrow>
    (C' \<inter> N' = {} \<and> C' \<inter> F' = {} \<and> N' \<inter> F' = {})
      \<and> C' \<union> N' \<union> F' \<subseteq> insert appid (C \<union> N \<union> F) \<and> C \<union> N \<union> F \<subseteq> C' \<union> N' \<union> F'"
    by blast
  show ?thesis
    using assms sets [of "completed_ids c" "no_data_ids c" "dom (failed_ids c)"
                         "completed_ids c'" "no_data_ids c'" "dom (failed_ids c')"]
    unfolding step_ok_def partitions_disjoint_def done_ids_def by blast
qed

lemma scrape_loop_inv:
  "partitions_disjoint (checkpoint st) \<Longrightarrow> distinct ids \<Longrightarrow> set ids \<inter> done_ids (checkpoint st) = {} \<Longrightarrow>
   partitions_disjoint (checkpoint (snd (scrape_loop e cfg i ids st)))
   \<and> done_ids (checkpoint (snd (scrape_loop e cfg i ids st))) \<subseteq> done_ids (checkpoint st) \<union> set ids
   \<and> app_ids_to_scrape (checkpoint (snd (scrape_loop e cfg i ids st))) = app_ids_to_scrape (checkpoint st)"
proof (induction ids arbitrary: i st)
  case Nil
  then show ?case by simp
next
  case (Cons a ids)
  obtain r st1 where it: "iteration e cfg i a st = (r, st1)" by (cases "iteration e cfg i a st")
  have so: "step_ok a (checkpoint st) (checkpoint st1)"
    using iteration_step [of a st e cfg i] it by simp
  have a: "a \<notin> done_ids (checkpoint st)" using Cons.prems by auto
  note inv = step_ok_inv [OF so Cons.prems(1) a]
  have u: "app_ids_to_scrape (checkpoint st1) = app_ids_to_scrape (checkpoint st)"
    using so by (simp add: step_ok_def)
  show ?case
  proof (cases r)
    case (Some ex)
    with it inv u show ?thesis by auto
  next
    case None
    have d: "distinct ids" and na: "a \<notin> set ids" using Cons.prems by auto
    have disj: "set ids \<inter> done_ids (checkpoint st1) = {}"
      using inv Cons.prems(3) na by auto
    from Cons.IH [OF conjunct1 [OF inv] d disj, of "Suc i"] it None inv u
    show ?thesis by auto
  qed
qed

lemmas engine_simps =
  checkpoint_after_def get_pending_def new_harvest_checkpoint_def iteration_def
  fetch_and_classify_def get_app_details_def append_result_def name_missing_def
  default_config_def Let_def eval_nat_numeral

text \<open>
  C1. The claim fails as it stands, with pairwise disjoint partitions as the only
  condition on the first state. The universe below lists the id 7 twice and the
  completed set holds an id, 5, that the universe lacks; the partitions are pairwise
  disjoint. The first fetch of 7 returns a payload, the second one no data. After these
  two steps 7 is both completed and excluded, and the partitions hold the id 5, which is
  not in the universe.
\<close>

theorem duplicate_id_breaks_partition:
  "completed_ids (checkpoint duplicate_state) \<inter> no_data_ids (checkpoint duplicate_state) = {}
   \<and> completed_ids (checkpoint duplicate_state) \<inter> dom (failed_ids (checkpoint duplicate_state)) = {}
   \<and> no_data_ids (checkpoint duplicate_state) \<inter> dom (failed_ids (checkpoint duplicate_state)) = {}
   \<and> get_pending (checkpoint duplicate_state) = [7, 7]
   \<and> completed_ids (checkpoint_after duplicate_env default_config 2 duplicate_state) = {7, 5}
   \<and> no_data_ids (checkpoint_after duplicate_env default_config 2 duplicate_state) = {7}
   \<and> set (app_ids_to_scrape (checkpoint_after duplicate_env default_config 2 duplicate_state)) = {7}"
  by (simp add: engine_simps duplicate_state_def duplicate_env_def)

text \<open>
  C1, as amended. From a first state whose partitions are pairwise disjoint and hold
  only ids of the universe, and whose universe lists no id twice, the state after any
  number \<open>n\<close> of iterations of the run loop over the pending ids has pairwise disjoint
  sets completed, excluded and keys of failed, and its pending ids together with these
  three sets are the universe. This holds for every behaviour of the network, the clock
  and the interruption signal, also when the loop is left early.
\<close>

theorem run_loop_keeps_partition:
  assumes "completed_ids (checkpoint st) \<inter> no_data_ids (checkpoint st) = {}"
    and "completed_ids (checkpoint st) \<inter> dom (failed_ids (checkpoint st)) = {}"
    and "no_data_ids (checkpoint st) \<inter> dom (failed_ids (checkpoint st)) = {}"
    and "completed_ids (checkpoint st) \<union> no_data_ids (checkpoint st) \<union> dom (failed_ids (checkpoint st))
           \<subseteq> set (app_ids_to_scrape (checkpoint st))"
    and "distinct (app_ids_to_scrape (checkpoint st))"
  shows "completed_ids (checkpoint_after e cfg n st) \<inter> no_data_ids (checkpoint_after e cfg n st) = {}
       \<and> completed_ids (checkpoint_after e cfg n st) \<inter> dom (failed_ids (checkpoint_after e cfg n st)) = {}
       \<and> no_data_ids (checkpoint_after e cfg n st) \<inter> dom (failed_ids (checkpoint_after e cfg n st)) = {}
       \<and> set (get_pending (checkpoint_after e cfg n st)) \<union> completed_ids (checkpoint_after e cfg n st)
             \<union> no_data_ids (checkpoint_after e cfg n st) \<union> dom (failed_ids (checkpoint_after e cfg n st))
           = set (app_ids_to_scrape (checkpoint_after e cfg n st))"
proof -
  let ?ids = "take n (get_pending (checkpoint st))"
  define c where "c = checkpoint_after e cfg n st"
  have c: "c = checkpoint (snd (scrape_loop e cfg 1 ?ids st))"
    by (simp add: c_def checkpoint_after_def)
  have pd: "partitions_disjoint (checkpoint st)"
    using assms(1-3) by (simp add: partitions_disjoint_def)
  have "distinct (get_pending (checkpoint st))"
    using assms(5) by (simp add: get_pending_def Let_def)
  then have d: "distinct ?ids" by simp
  have "set ?ids \<subseteq> set (get_pending (checkpoint st))" by (rule set_take_subset)
  then have sub: "set ?ids \<subseteq> set (app_ids_to_scrape (checkpoint st)) - done_ids (checkpoint st)"
    by (simp add: set_get_pending)
  then have disj: "set ?ids \<inter> done_ids (checkpoint st) = {}" by auto
  note inv = scrape_loop_inv [OF pd d disj, of e cfg 1, folded c]
  have d0: "done_ids (checkpoint st) \<subseteq> set (app_ids_to_scrape (checkpoint st))"
    using assms(4) by (simp add: done_ids_def)
  have "done_ids c \<subseteq> set (app_ids_to_scrape c)"
    using inv sub d0 by auto
  then have "set (get_pending c) \<union> done_ids c = set (app_ids_to_scrape c)"
    by (auto simp: set_get_pending)
  then have "completed_ids c \<inter> no_data_ids c = {}
       \<and> completed_ids c \<inter> dom (failed_ids c) = {}
       \<and> no_data_ids c \<inter> dom (failed_ids c) = {}
       \<and> set (get_pending c) \<union> completed_ids c \<union> no_data_ids c \<union> dom (failed_ids c)
           = set (app_ids_to_scrape c)"
    using inv by (simp add: partitions_disjoint_def done_ids_def Un_assoc)
  then show ?thesis by (simp add: c_def)
qed

text \<open>
  The amended C1 at the scenario of the specification: the universe 1, 2, 3, a payload
  for 1, no data for 2 and a transport error for 3. After three iterations 1 is
  completed, 2 is excluded, 3 has failed and nothing is pending.
\<close>

theorem run_loop_keeps_partition_witness:
  "completed_ids (checkpoint three_ids_state) \<inter> no_data_ids (checkpoint three_ids_state) = {}
   \<and> completed_ids (checkpoint three_ids_state) \<inter> dom (failed_ids (checkpoint three_ids_state)) = {}
   \<and> no_data_ids (checkpoint three_ids_state) \<inter> dom (failed_ids (checkpoint three_ids_state)) = {}
   \<and> completed_ids (checkpoint three_ids_state) \<union> no_data_ids (checkpoint three_ids_state)
        \<union> dom (failed_ids (checkpoint three_ids_state)) \<subseteq> set (app_ids_to_scrape (checkpoint three_ids_state))
   \<and> distinct (app_ids_to_scrape (checkpoint three_ids_state))
   \<and> completed_ids (checkpoint_after three_ids_env default_config 3 three_ids_state) = {1}
   \<and> no_data_ids (checkpoint_after three_ids_env default_config 3 three_ids_state) = {2}
   \<and> dom (failed_ids (checkpoint_after three_ids_env default_config 3 three_ids_state)) = {3}
   \<and> get_pending (checkpoint_after three_ids_env default_config 3 three_ids_state) = []"
  using run_loop_keeps_partition [of three_ids_state three_ids_env default_config 3]
  by (simp add: engine_simps three_ids_env_def three_ids_state_def)

section \<open>Properties of the failures of a fetch\<close>

















section \<open>Properties of the save at the end of a run\<close>














section \<open>Properties of the normalization\<close>

lemma foldl_add_genre:
  "foldl (add_genre appid) v gs =
     v\<lparr>genres := foldl genre_step (genres v) (map (Pair appid) gs),
       game_genres := game_genres v @ map (\<lambda>g. (appid, fst g)) gs\<rparr>"
  by (induction gs arbitrary: v) (auto simp: add_genre_def genre_step_def)

lemma add_category_step:
  "add_category appid v c =
     v\<lparr>categories := fst (category_step (cat_of v) (appid, c)),
       category_name_to_id := fst (snd (category_step (cat_of v) (appid, c))),
       game_categories := snd (snd (category_step (cat_of v) (appid, c)))\<rparr>"
  by (cases c) (auto simp: add_category_def category_step_def cat_of_def Let_def AList.update_conv'
        split: option.split)

lemma foldl_add_category:
  "foldl (add_category appid) v cs =
     v\<lparr>categories := fst (foldl category_step (cat_of v) (map (Pair appid) cs)),
       category_name_to_id := fst (snd (foldl category_step (cat_of v) (map (Pair appid) cs))),
       game_categories := snd (snd (foldl category_step (cat_of v) (map (Pair appid) cs)))\<rparr>"
proof (induction cs arbitrary: v)
  case Nil
  then show ?case by (simp add: cat_of_def)
next
  case (Cons c cs)
  have "cat_of (add_category appid v c) = category_step (cat_of v) (appid, c)"
    by (subst add_category_step) (simp add: cat_of_def)
  then show ?case
    by (simp add: Cons.IH) (simp add: add_category_step)
qed

lemma foldl_add_developer:
  "foldl (add_developer appid) v ds =
     v\<lparr>developers := foldl (\<lambda>s x. set_add x s) (developers v) ds,
       game_developers := game_developers v @ map (Pair appid) ds\<rparr>"
  by (induction ds arbitrary: v) (auto simp: add_developer_def)

lemma foldl_add_publisher:
  "foldl (add_publisher appid) v ps =
     v\<lparr>publishers := foldl (\<lambda>s x. set_add x s) (publishers v) ps,
       game_publishers := game_publishers v @ map (Pair appid) ps\<rparr>"
  by (induction ps arbitrary: v) (auto simp: add_publisher_def)

lemma process_app_fields:
  "games (process_app rt v item) = games v @ map (\<lambda>(appid, raw). make_game_row rt appid raw) (game_items [item])"
  "genres (process_app rt v item) = foldl genre_step (genres v) (item_entries raw_genres item)"
  "game_genres (process_app rt v item) = game_genres v @ map (\<lambda>(appid, g). (appid, fst g)) (item_entries raw_genres item)"
  "cat_of (process_app rt v item) = foldl category_step (cat_of v) (item_entries raw_categories item)"
  "developers (process_app rt v item) = foldl (\<lambda>s x. set_add x s) (developers v) (map snd (item_entries raw_developers item))"
  "game_developers (process_app rt v item) = game_developers v @ item_entries raw_developers item"
  "publishers (process_app rt v item) = foldl (\<lambda>s x. set_add x s) (publishers v) (map snd (item_entries raw_publishers item))"
  "game_publishers (process_app rt v item) = game_publishers v @ item_entries raw_publishers item"
  by (cases item; cases "snd item";
      simp add: process_app_def item_entries_def game_items_def Let_def foldl_add_genre
        foldl_add_category foldl_add_developer foldl_add_publisher cat_of_def comp_def)+

lemma foldl_process_app_fields:
  "games (foldl (process_app rt) v data) = games v @ map (\<lambda>(appid, raw). make_game_row rt appid raw) (game_items data)"
  "genres (foldl (process_app rt) v data) = foldl genre_step (genres v) (entries_of raw_genres data)"
  "game_genres (foldl (process_app rt) v data) = game_genres v @ map (\<lambda>(appid, g). (appid, fst g)) (entries_of raw_genres data)"
  "cat_of (foldl (process_app rt) v data) = foldl category_step (cat_of v) (entries_of raw_categories data)"
  "developers (foldl (process_app rt) v data) = foldl (\<lambda>s x. set_add x s) (developers v) (map snd (entries_of raw_developers data))"
  "game_developers (foldl (process_app rt) v data) = game_developers v @ entries_of raw_developers data"
  "publishers (foldl (process_app rt) v data) = foldl (\<lambda>s x. set_add x s) (publishers v) (map snd (entries_of raw_publishers data))"
  "game_publishers (foldl (process_app rt) v data) = game_publishers v @ entries_of raw_publishers data"
  by (induction data arbitrary: v; simp add: process_app_fields entries_of_def game_items_def)+

lemma set_add_keys: "map fst (AList.update k x al) = set_add k (map fst al)"
  by (simp add: update_keys set_add_def)

lemma first_index_less: "a \<in> set xs \<Longrightarrow> first_index xs a < length xs"
  by (induction xs) auto

lemma first_index_append:
  "first_index (xs @ ys) a = (if a \<in> set xs then first_index xs a else length xs + first_index ys a)"
  by (induction xs) auto

lemma first_encounter_snoc:
  assumes "first_encounter_order xs ys"
  shows "first_encounter_order (xs @ [x]) (set_add x ys)"
proof -
  from assms have d: "distinct ys" and s: "set ys = set xs"
    and o: "sorted_wrt (\<lambda>a b. first_index xs a < first_index xs b) ys"
    by (simp_all add: first_encounter_order_def)
  have o': "sorted_wrt (\<lambda>a b. first_index (xs @ [x]) a < first_index (xs @ [x]) b) ys"
    using o s by (auto simp: first_index_append elim!: sorted_wrt_mono_rel [rotated])
  show ?thesis
  proof (cases "x \<in> set ys")
    case True
    with d s o' show ?thesis by (auto simp: first_encounter_order_def set_add_def)
  next
    case False
    have "\<forall>a\<in>set ys. first_index (xs @ [x]) a < first_index (xs @ [x]) x"
      using False s by (auto simp: first_index_append first_index_less)
    with False d s o' show ?thesis
      by (auto simp: first_encounter_order_def set_add_def sorted_wrt_append)
  qed
qed

lemma first_encounter_foldl:
  "first_encounter_order xs (foldl (\<lambda>s x. set_add x s) [] xs)"
proof (induction xs rule: rev_induct)
  case Nil
  then show ?case by (simp add: first_encounter_order_def)
next
  case (snoc x xs)
  then show ?case by (simp add: first_encounter_snoc)
qed

lemma genre_keys:
  "map fst (foldl genre_step al es) = foldl (\<lambda>s x. set_add x s) (map fst al) (map (\<lambda>e. fst (snd e)) es)"
  by (induction es arbitrary: al) (auto simp: genre_step_def set_add_keys)


lemma first_id_for_snoc:
  "first_id_for (E @ [(a, c, n)]) m =
     (case first_id_for E m of Some c' \<Rightarrow> Some c' | None \<Rightarrow> if m = n then Some c else None)"
  by (simp add: first_id_for_def map_add_def split: option.split)

lemma first_id_for_None: "first_id_for E n = None \<longleftrightarrow> n \<notin> (\<lambda>e. snd (snd e)) ` set E"
  by (auto simp: first_id_for_def map_of_eq_None_iff image_iff split: prod.splits)

lemma registrations_snoc:
  "registrations seen (E @ [(a, c, n)]) =
     registrations seen E @ (if n \<in> seen \<union> (\<lambda>e. snd (snd e)) ` set E then [] else [(c, n)])"
  by (induction seen E rule: registrations.induct) auto

lemma values_update:
  "snd ` set (AList.update k x al) \<subseteq> insert x (snd ` set al)"
  by (induction al) auto

lemma distinct_values_update:
  "distinct (map snd al) \<Longrightarrow> x \<notin> snd ` set al \<Longrightarrow> distinct (map snd (AList.update k x al))"
proof (induction al)
  case Nil
  then show ?case by simp
next
  case (Cons p al)
  then show ?case
    using values_update [of k x al] by (auto simp: image_iff)
qed

lemma cat_inv_step:
  assumes "cat_inv E t"
  shows "cat_inv (E @ [(a, c, n)]) (category_step t (a, c, n))"
proof -
  obtain C N J where t: "t = (C, N, J)" by (cases t)
  from assms t have N: "map_of N = first_id_for E"
    and J: "J = map (\<lambda>(a, c, n). (a, the (first_id_for E n))) E"
    and dC: "distinct (map snd C)" and sC: "snd ` set C \<subseteq> (\<lambda>e. snd (snd e)) ` set E"
    and kC: "map fst C = foldl (\<lambda>s x. set_add x s) [] (map fst (registrations {} E))"
    by (simp_all add: cat_inv_def)
  have keys: "n \<in> set (map fst N) \<longleftrightarrow> first_id_for E n \<noteq> None"
    using N by (metis map_of_eq_None_iff set_map)
  have old: "map (\<lambda>(a', c', n'). (a', the (first_id_for (E @ [(a, c, n)]) n'))) E
           = map (\<lambda>(a', c', n'). (a', the (first_id_for E n'))) E"
  proof (rule map_cong [OF refl])
    fix e assume e: "e \<in> set E"
    obtain a' c' n' where [simp]: "e = (a', c', n')" by (cases e)
    from e have "n' \<in> (\<lambda>e. snd (snd e)) ` set E" by force
    then have "first_id_for E n' \<noteq> None" by (simp add: first_id_for_None)
    then show "(case e of (a', c', n') \<Rightarrow> (a', the (first_id_for (E @ [(a, c, n)]) n')))
             = (case e of (a', c', n') \<Rightarrow> (a', the (first_id_for E n')))"
      by (auto simp: first_id_for_snoc)
  qed
  show ?thesis
  proof (cases "first_id_for E n")
    case None
    then have new: "n \<notin> (\<lambda>e. snd (snd e)) ` set E" by (simp add: first_id_for_None)
    have nk: "n \<notin> set (map fst N)" using keys None by simp
    have st: "category_step t (a, c, n) = (AList.update c n C, AList.update n c N, J @ [(a, c)])"
      using nk t by (simp add: category_step_def)
    have 1: "map_of (AList.update n c N) = first_id_for (E @ [(a, c, n)])"
      using N None by (auto simp: fun_eq_iff update_conv' first_id_for_snoc split: option.split)
    have 2: "J @ [(a, c)] = map (\<lambda>(a', c', n'). (a', the (first_id_for (E @ [(a, c, n)]) n'))) (E @ [(a, c, n)])"
      using J old None by (simp add: first_id_for_snoc)
    have 3: "distinct (map snd (AList.update c n C))"
      using dC sC new by (intro distinct_values_update) auto
    have 4: "snd ` set (AList.update c n C) \<subseteq> (\<lambda>e. snd (snd e)) ` set (E @ [(a, c, n)])"
      using values_update [of c n C] sC by auto
    have 5: "map fst (AList.update c n C)
           = foldl (\<lambda>s x. set_add x s) [] (map fst (registrations {} (E @ [(a, c, n)])))"
      using kC new by (simp add: registrations_snoc set_add_keys)
    from st 1 2 3 4 5 show ?thesis by (simp add: cat_inv_def)
  next
    case (Some c0)
    then have old_name: "n \<in> (\<lambda>e. snd (snd e)) ` set E"
      using first_id_for_None [of E n] by auto
    have k: "n \<in> set (map fst N)" using keys Some by simp
    have st: "category_step t (a, c, n) = (C, N, J @ [(a, c0)])"
      using k t N Some by (simp add: category_step_def)
    have 1: "map_of N = first_id_for (E @ [(a, c, n)])"
      using N Some by (auto simp: fun_eq_iff first_id_for_snoc split: option.split)
    have 2: "J @ [(a, c0)] = map (\<lambda>(a', c', n'). (a', the (first_id_for (E @ [(a, c, n)]) n'))) (E @ [(a, c, n)])"
      using J old Some by (simp add: first_id_for_snoc)
    have 4: "snd ` set C \<subseteq> (\<lambda>e. snd (snd e)) ` set (E @ [(a, c, n)])"
      using sC by auto
    have 5: "map fst C = foldl (\<lambda>s x. set_add x s) [] (map fst (registrations {} (E @ [(a, c, n)])))"
      using kC old_name by (simp add: registrations_snoc)
    from st 1 2 dC 4 5 show ?thesis by (simp add: cat_inv_def)
  qed
qed

lemma cat_inv_foldl: "cat_inv E (foldl category_step ([], [], []) E)"
proof (induction E rule: rev_induct)
  case Nil
  then show ?case by (simp add: cat_inv_def first_id_for_def fun_eq_iff)
next
  case (snoc e E)
  obtain a c n where "e = (a, c, n)" by (cases e)
  with snoc cat_inv_step [of E _ a c n] show ?case by simp
qed

lemma add_tag_step:
  "tags (add_tag a s v t) = fst (tag_step (tags v, game_tags v) (a, s, t))"
  "game_tags (add_tag a s v t) = snd (tag_step (tags v, game_tags v) (a, s, t))"
  by (cases t; simp add: add_tag_def tag_step_def Let_def)+

lemma foldl_add_tag:
  "(tags (foldl (add_tag a s) v ts), game_tags (foldl (add_tag a s) v ts))
     = foldl tag_step (tags v, game_tags v) (map (\<lambda>t. (a, s, t)) ts)"
  by (induction ts arbitrary: v) (simp_all add: add_tag_step)

lemma process_record_step:
  "(tags (process_record v r), game_tags (process_record v r))
     = foldl tag_step (tags v, game_tags v) (tag_entries [r])"
  using foldl_add_tag [of "rec_appid r" "rec_scraped_at r" "v\<lparr>apps_processed := Suc (apps_processed v)\<rparr>" "rec_tags r"]
  by (simp add: process_record_def tag_entries_def)

lemma foldl_process_record:
  "(tags (foldl process_record v records), game_tags (foldl process_record v records))
     = foldl tag_step (tags v, game_tags v) (tag_entries records)"
proof (induction records arbitrary: v)
  case Nil
  then show ?case by (simp add: tag_entries_def)
next
  case (Cons r records)
  have "tag_entries (r # records) = tag_entries [r] @ tag_entries records"
    by (simp add: tag_entries_def)
  then show ?case
    using Cons.IH [of "process_record v r"] process_record_step [of v r]
    by simp
qed

lemma distinct_values_update2:
  "distinct (map fst al) \<Longrightarrow> distinct (map snd al) \<Longrightarrow> \<forall>p\<in>set al. fst p \<noteq> k \<longrightarrow> snd p \<noteq> x \<Longrightarrow>
   distinct (map snd (AList.update k x al))"
proof (induction al)
  case Nil
  then show ?case by simp
next
  case (Cons p al)
  then show ?case
    using values_update [of k x al] by (auto simp: image_iff) force+
qed

lemma existing_id_in:
  "name \<in> set (map snd (filter (\<lambda>t. fst t \<noteq> tagid) T)) \<Longrightarrow>
   \<exists>existing_id rest. map fst (filter (\<lambda>t. snd t = name) T) = existing_id # rest
     \<and> (existing_id, name) \<in> set T"
proof -
  assume "name \<in> set (map snd (filter (\<lambda>t. fst t \<noteq> tagid) T))"
  then have "filter (\<lambda>t. snd t = name) T \<noteq> []"
    by (auto simp: filter_empty_conv)
  then obtain p ps where f: "filter (\<lambda>t. snd t = name) T = p # ps"
    by (cases "filter (\<lambda>t. snd t = name) T") auto
  then have "p \<in> set (filter (\<lambda>t. snd t = name) T)" by simp
  then have "p \<in> set T" "snd p = name" by auto
  then have "(fst p, name) \<in> set T" by (cases p) auto
  with f show ?thesis by auto
qed

lemma tag_inv_step:
  assumes "tag_inv E t"
  shows "tag_inv (E @ [e]) (tag_step t e)"
proof -
  obtain T GT where t: "t = (T, GT)" by (cases t)
  obtain a s tagid n v where e: "e = (a, s, tagid, n, v)" by (cases e)
  from assms have inv: "distinct (map fst T) \<and> distinct (map snd T)
    \<and> map (\<lambda>(a, t, v, s). (a, v, s)) GT = map (\<lambda>(a, s, t, n, v). (a, v, s)) E
    \<and> map fst T = foldl (\<lambda>s x. set_add x s) [] (map (\<lambda>g. fst (snd g)) GT)"
    unfolding t tag_inv_def prod.case .
  from inv have dk: "distinct (map fst T)" by blast
  from inv have dv: "distinct (map snd T)" by blast
  from inv have rows: "map (\<lambda>(a, t, v, s). (a, v, s)) GT = map (\<lambda>(a, s, t, n, v). (a, v, s)) E"
    by blast
  from inv have keys: "map fst T = foldl (\<lambda>s x. set_add x s) [] (map (\<lambda>g. fst (snd g)) GT)"
    by blast
  define tagid1 where "tagid1 = (if n \<in> set (map snd (filter (\<lambda>t. fst t \<noteq> tagid) T))
                      then (case map fst (filter (\<lambda>t. snd t = n) T) of
                              existing_id # _ \<Rightarrow> existing_id | [] \<Rightarrow> tagid)
                      else tagid)"
  have st: "tag_step t e = (AList.update tagid1 n T, GT @ [(a, tagid1, v, s)])"
    by (simp add: tag_step_def t e tagid1_def Let_def)
  have others: "\<forall>p\<in>set T. fst p \<noteq> tagid1 \<longrightarrow> snd p \<noteq> n"
  proof (cases "n \<in> set (map snd (filter (\<lambda>t. fst t \<noteq> tagid) T))")
    case True
    from existing_id_in [OF True] obtain x rest where
      x: "map fst (filter (\<lambda>t. snd t = n) T) = x # rest" "(x, n) \<in> set T" by auto
    then have "tagid1 = x" using True by (simp add: tagid1_def)
    have "fst p = x" if "p \<in> set T" "snd p = n" for p
    proof -
      from dv have "inj_on snd (set T)" by (simp add: distinct_map)
      from inj_onD [OF this, of p "(x, n)"] that x(2) show ?thesis by auto
    qed
    with \<open>tagid1 = x\<close> show ?thesis by auto
  next
    case False
    then show ?thesis by (auto simp: tagid1_def)
  qed
  have 1: "distinct (map fst (AList.update tagid1 n T))" using dk by (simp add: distinct_update)
  have 2: "distinct (map snd (AList.update tagid1 n T))"
    using dk dv others by (rule distinct_values_update2)
  have 3: "map (\<lambda>(a, t, v, s). (a, v, s)) (GT @ [(a, tagid1, v, s)])
         = map (\<lambda>(a, s, t, n, v). (a, v, s)) (E @ [e])"
    using rows e by simp
  have 4: "map fst (AList.update tagid1 n T)
         = foldl (\<lambda>s x. set_add x s) [] (map (\<lambda>g. fst (snd g)) (GT @ [(a, tagid1, v, s)]))"
    using keys by (simp add: set_add_keys)
  from st 1 2 3 4 show ?thesis by (simp add: tag_inv_def)
qed

lemma tag_inv_foldl: "tag_inv E (foldl tag_step ([], []) E)"
proof (induction E rule: rev_induct)
  case Nil
  then show ?case by (simp add: tag_inv_def)
next
  case (snoc e E)
  then show ?case by (simp add: tag_inv_step)
qed

lemma dedupe_keys:
  "seen = tag_key ` set acc \<Longrightarrow>
   map tag_key (dedupe seen acc gts) = foldl (\<lambda>s x. set_add x s) (map tag_key acc) (map tag_key gts)"
proof (induction gts arbitrary: seen acc)
  case Nil
  then show ?case by simp
next
  case (Cons gt gts)
  show ?case
  proof (cases "tag_key gt \<in> seen")
    case True
    with Cons.IH [OF Cons.prems] Cons.prems show ?thesis
      by (simp add: tag_key_def set_add_def Let_def)
  next
    case False
    have "insert (tag_key gt) seen = tag_key ` set (acc @ [gt])" using Cons.prems by auto
    from Cons.IH [OF this] False Cons.prems show ?thesis
      by (simp add: tag_key_def set_add_def Let_def)
  qed
qed

lemma dedupe_rows:
  "\<exists>ys. dedupe seen acc gts = acc @ ys
     \<and> (\<forall>row\<in>set ys. find (\<lambda>r. tag_key r = tag_key row) gts = Some row \<and> tag_key row \<notin> seen)"
proof (induction gts arbitrary: seen acc)
  case Nil
  then show ?case by simp
next
  case (Cons gt gts)
  show ?case
  proof (cases "tag_key gt \<in> seen")
    case True
    from Cons.IH [of seen acc] obtain ys where
      ys: "dedupe seen acc gts = acc @ ys"
        "\<forall>row\<in>set ys. find (\<lambda>r. tag_key r = tag_key row) gts = Some row \<and> tag_key row \<notin> seen"
      by auto
    have "dedupe seen acc (gt # gts) = acc @ ys"
      using True ys(1) by (simp add: tag_key_def Let_def)
    moreover have "\<forall>row\<in>set ys. find (\<lambda>r. tag_key r = tag_key row) (gt # gts) = Some row \<and> tag_key row \<notin> seen"
      using ys(2) True by auto
    ultimately show ?thesis by blast
  next
    case False
    from Cons.IH [of "insert (tag_key gt) seen" "acc @ [gt]"] obtain ys where
      ys: "dedupe (insert (tag_key gt) seen) (acc @ [gt]) gts = (acc @ [gt]) @ ys"
        "\<forall>row\<in>set ys. find (\<lambda>r. tag_key r = tag_key row) gts = Some row
            \<and> tag_key row \<notin> insert (tag_key gt) seen"
      by auto
    have "dedupe seen acc (gt # gts) = acc @ (gt # ys)"
      using False ys(1) by (simp add: tag_key_def Let_def)
    moreover have "\<forall>row\<in>set (gt # ys). find (\<lambda>r. tag_key r = tag_key row) (gt # gts) = Some row \<and> tag_key row \<notin> seen"
      using ys(2) False by auto
    ultimately show ?thesis by blast
  qed
qed

lemma dedupe_first:
  "first_encounter_order (map tag_key gts) (map tag_key (dedupe {} [] gts))
   \<and> (\<forall>row\<in>set (dedupe {} [] gts). find (\<lambda>r. tag_key r = tag_key row) gts = Some row)"
  using dedupe_keys [of "{}" "[]" gts] dedupe_rows [of "{}" "[]" gts]
  by (auto simp: first_encounter_foldl)


lemma first_tag_id_snoc:
  "first_tag_id (E @ [(a, s, t, n, v)]) m =
     (case first_tag_id E m of Some c' \<Rightarrow> Some c' | None \<Rightarrow> if m = n then Some t else None)"
  by (simp add: first_tag_id_def map_add_def split: option.split)

lemma first_tag_id_None: "first_tag_id E n = None \<longleftrightarrow> n \<notin> tag_name ` set E"
  by (auto simp: first_tag_id_def tag_name_def map_of_eq_None_iff image_iff split: prod.splits)

lemma first_tag_id_Some:
  "first_tag_id E n = Some t \<Longrightarrow> \<exists>e\<in>set E. tag_id e = t \<and> tag_name e = n"
proof -
  assume "first_tag_id E n = Some t"
  then have "(n, t) \<in> set (map (\<lambda>(appid, scraped_at, tagid, n, votes). (n, tagid)) E)"
    unfolding first_tag_id_def by (rule map_of_SomeD)
  then obtain e where e: "e \<in> set E"
    and nt: "(n, t) = (case e of (appid, scraped_at, tagid, n, votes) \<Rightarrow> (n, tagid))"
    by auto
  obtain a s t' n' v where "e = (a, s, t', n', v)" by (cases e)
  with nt have "tag_id e = t \<and> tag_name e = n" by (simp add: tag_name_def tag_id_def)
  with e show ?thesis by blast
qed

lemma update_fresh: "k \<notin> fst ` set al \<Longrightarrow> AList.update k x al = al @ [(k, x)]"
  by (induction al) auto

lemma canon_inv_step:
  assumes "canon_inv E t" "tag_inv E t" "consistent_names (E @ [e])"
  shows "canon_inv (E @ [e]) (tag_step t e)"
proof -
  obtain T GT where t: "t = (T, GT)" by (cases t)
  obtain a s tagid n v where e: "e = (a, s, tagid, n, v)" by (cases e)
  from assms(1) have ci: "set T = (\<lambda>n. (the (first_tag_id E n), n)) ` tag_name ` set E
    \<and> GT = map (canonical_row E) E"
    unfolding t canon_inv_def prod.case .
  note sT = conjunct1 [OF ci] and ids = conjunct2 [OF ci]
  from assms(2) have ti: "distinct (map fst T) \<and> distinct (map snd T)
    \<and> map (\<lambda>(a, t, v, s). (a, v, s)) GT = map (\<lambda>(a, s, t, n, v). (a, v, s)) E
    \<and> map fst T = foldl (\<lambda>s x. set_add x s) [] (map (\<lambda>g. fst (snd g)) GT)"
    unfolding t tag_inv_def prod.case .
  note dk = conjunct1 [OF ti] and dv = conjunct1 [OF conjunct2 [OF ti]]
  define tagid1 where "tagid1 = (if n \<in> set (map snd (filter (\<lambda>t. fst t \<noteq> tagid) T))
                      then (case map fst (filter (\<lambda>t. snd t = n) T) of
                              existing_id # _ \<Rightarrow> existing_id | [] \<Rightarrow> tagid)
                      else tagid)"
  have st: "tag_step t e = (AList.update tagid1 n T, GT @ [(a, tagid1, v, s)])"
    by (simp add: tag_step_def t e tagid1_def Let_def)
  have name_e: "tag_name e = n" by (simp add: e tag_name_def)
  have keep: "the (first_tag_id (E @ [e]) m) = the (first_tag_id E m)" if "m \<in> tag_name ` set E" for m
  proof -
    from that have "first_tag_id E m \<noteq> None" by (simp add: first_tag_id_None)
    then obtain c where "first_tag_id E m = Some c" by blast
    then show ?thesis by (simp add: e first_tag_id_snoc)
  qed
  have keep_image: "(\<lambda>m. (the (first_tag_id (E @ [e]) m), m)) ` tag_name ` set E
                   = (\<lambda>m. (the (first_tag_id E m), m)) ` tag_name ` set E"
    by (rule image_cong [OF refl]) (simp add: keep)
  have old: "map (canonical_row (E @ [e])) E = map (canonical_row E) E"
  proof (rule map_cong [OF refl])
    fix e' assume e': "e' \<in> set E"
    obtain a' s' t' n' v' where [simp]: "e' = (a', s', t', n', v')" by (cases e')
    from e' have "tag_name e' \<in> tag_name ` set E" by (rule imageI)
    then have "n' \<in> tag_name ` set E" by (simp add: tag_name_def)
    from keep [OF this] show "canonical_row (E @ [e]) e' = canonical_row E e'"
      by (simp add: canonical_row_def)
  qed
  show ?thesis
  proof (cases "first_tag_id E n")
    case None
    then have new: "n \<notin> tag_name ` set E" by (simp add: first_tag_id_None)
    have vals: "snd ` set T = tag_name ` set E"
      unfolding sT by (simp add: image_image)
    have nv: "n \<notin> snd ` set T" using new vals by simp
    have "n \<notin> set (map snd (filter (\<lambda>t. fst t \<noteq> tagid) T))"
    proof
      assume "n \<in> set (map snd (filter (\<lambda>t. fst t \<noteq> tagid) T))"
      then have "n \<in> snd ` set T" by auto
      with nv show False by simp
    qed
    then have t1: "tagid1 = tagid" by (simp add: tagid1_def)
    have fresh: "tagid \<notin> fst ` set T"
    proof
      assume "tagid \<in> fst ` set T"
      then obtain n' where "(tagid, n') \<in> set T" by auto
      then have "(tagid, n') \<in> (\<lambda>n. (the (first_tag_id E n), n)) ` tag_name ` set E"
        unfolding sT .
      then obtain m where "m \<in> tag_name ` set E" "(tagid, n') = (the (first_tag_id E m), m)"
        by (rule imageE)
      then have n': "n' \<in> tag_name ` set E" and f: "tagid = the (first_tag_id E n')" by simp_all
      from n' obtain t' where "first_tag_id E n' = Some t'"
        using first_tag_id_None [of E n'] by auto
      with f first_tag_id_Some [of E n' tagid] obtain e' where
        e': "e' \<in> set E" "tag_id e' = tagid" "tag_name e' = n'" by auto
      have c: "\<forall>e1\<in>set (E @ [e]). \<forall>e2\<in>set (E @ [e]). tag_id e1 = tag_id e2 \<longrightarrow> tag_name e1 = tag_name e2"
        using assms(3) unfolding consistent_names_def tag_name_def tag_id_def .
      have te: "tag_id e' = tag_id e" using e'(2) by (simp add: e tag_id_def)
      have "e' \<in> set (E @ [e])" "e \<in> set (E @ [e])" using e'(1) by simp_all
      from c [rule_format, OF this te] have "tag_name e' = tag_name e" .
      with e'(3) name_e n' new show False by simp
    qed
    have 1: "set (AList.update tagid1 n T)
           = (\<lambda>m. (the (first_tag_id (E @ [e]) m), m)) ` tag_name ` set (E @ [e])"
    proof -
      have "set (AList.update tagid1 n T) = insert (tagid, n) (set T)"
        using fresh t1 by (simp add: update_fresh)
      moreover have "the (first_tag_id (E @ [e]) n) = tagid"
        using None by (simp add: e first_tag_id_snoc)
      ultimately show ?thesis using sT name_e keep_image by simp
    qed
    have 2: "GT @ [(a, tagid1, v, s)] = map (canonical_row (E @ [e])) (E @ [e])"
      using ids old None t1 by (simp add: e first_tag_id_snoc canonical_row_def)
    from st 1 2 show ?thesis by (simp add: canon_inv_def)
  next
    case (Some f)
    then have old_name: "n \<in> tag_name ` set E" using first_tag_id_None [of E n] by auto
    have "(the (first_tag_id E n), n) \<in> (\<lambda>n. (the (first_tag_id E n), n)) ` tag_name ` set E"
      using old_name by (rule imageI)
    then have fT: "(f, n) \<in> set T" using sT Some by simp
    have uniq: "fst p = f" if "p \<in> set T" "snd p = n" for p
    proof -
      from dv have "inj_on snd (set T)" by (simp add: distinct_map)
      from inj_onD [OF this, of p "(f, n)"] that fT show ?thesis by auto
    qed
    have t1: "tagid1 = f"
    proof (cases "n \<in> set (map snd (filter (\<lambda>t. fst t \<noteq> tagid) T))")
      case True
      from existing_id_in [OF True] obtain x rest where
        x: "map fst (filter (\<lambda>t. snd t = n) T) = x # rest" "(x, n) \<in> set T" by auto
      then have "tagid1 = x" using True by (simp add: tagid1_def)
      with uniq [of "(x, n)"] x(2) show ?thesis by simp
    next
      case False
      then have "tagid1 = tagid" by (simp add: tagid1_def)
      moreover have "f = tagid"
      proof (rule ccontr)
        assume "f \<noteq> tagid"
        with fT have "n \<in> set (map snd (filter (\<lambda>t. fst t \<noteq> tagid) T))" by force
        with False show False by simp
      qed
      ultimately show ?thesis by simp
    qed
    have "map_of T f = Some n" using fT dk by simp
    then have same: "AList.update tagid1 n T = T" using t1 by (simp add: update_triv)
    have 1: "set T = (\<lambda>m. (the (first_tag_id (E @ [e]) m), m)) ` tag_name ` set (E @ [e])"
    proof -
      have "tag_name ` set (E @ [e]) = tag_name ` set E"
        using old_name name_e by auto
      then show ?thesis using sT keep_image by simp
    qed
    have 2: "GT @ [(a, tagid1, v, s)] = map (canonical_row (E @ [e])) (E @ [e])"
      using ids old Some t1 by (simp add: e first_tag_id_snoc canonical_row_def)
    from st same 1 2 show ?thesis by (simp add: canon_inv_def)
  qed
qed

lemma consistent_names_butlast:
  assumes "consistent_names (E @ [e])"
  shows "consistent_names E"
  unfolding consistent_names_def
proof (intro ballI impI)
  fix x y
  assume xy: "x \<in> set E" "y \<in> set E" and eq: "fst (snd (snd x)) = fst (snd (snd y))"
  from xy have "x \<in> set (E @ [e])" "y \<in> set (E @ [e])" by simp_all
  with assms eq show "fst (snd (snd (snd x))) = fst (snd (snd (snd y)))"
    unfolding consistent_names_def by blast
qed

lemma canon_inv_foldl: "consistent_names E \<Longrightarrow> canon_inv E (foldl tag_step ([], []) E)"
proof (induction E rule: rev_induct)
  case Nil
  then show ?case by (simp add: canon_inv_def)
next
  case (snoc e E)
  have "canon_inv (E @ [e]) (tag_step (foldl tag_step ([], []) E) e)"
    by (rule canon_inv_step [OF snoc.IH [OF consistent_names_butlast [OF snoc.prems]]
          tag_inv_foldl snoc.prems])
  then show ?case by simp
qed

lemma cat_of_initial: "cat_of initial_vars = ([], [], [])"
  by (simp add: cat_of_def initial_vars_def)

lemma prepare_categories:
  "cat_inv (entries_of raw_categories data)
     (categories (foldl (process_app rt) initial_vars data),
      category_name_to_id (foldl (process_app rt) initial_vars data),
      game_categories (foldl (process_app rt) initial_vars data))"
  using cat_inv_foldl [of "entries_of raw_categories data"]
        foldl_process_app_fields(4) [of rt initial_vars data]
  by (simp add: cat_of_initial) (simp add: cat_of_def)

lemma prepare_tags:
  "tag_inv (tag_entries records)
     (tags (foldl process_record initial_tag_vars records),
      game_tags (foldl process_record initial_tag_vars records))"
  "consistent_names (tag_entries records) \<Longrightarrow>
   canon_inv (tag_entries records)
     (tags (foldl process_record initial_tag_vars records),
      game_tags (foldl process_record initial_tag_vars records))"
  using tag_inv_foldl [of "tag_entries records"] canon_inv_foldl [of "tag_entries records"]
        foldl_process_record [of initial_tag_vars records]
  by (simp_all add: initial_tag_vars_def)


lemmas pipeline_simps =
  prepare_data_def process_app_def add_genre_def add_category_def add_developer_def
  add_publisher_def initial_vars_def list_of_set_def set_of_list_def set_add_def Let_def
  example_runtime_def plain_game_def make_game_row_def parse_release_date_def

lemma example_orders:
  "iteration_order (order_pairs example_runtime) \<and> iteration_order (order_names example_runtime)"
  by (simp add: example_runtime_def iteration_order_rev)

lemma parse_required_age_orders:
  "parse_required_age (rt\<lparr>order_pairs := oa, order_names := ob\<rparr>) v = parse_required_age rt v"
  by (cases v) simp_all

lemma process_app_orders:
  "process_app (rt\<lparr>order_pairs := oa, order_names := ob\<rparr>) = process_app rt"
  by (auto simp: fun_eq_iff process_app_def make_game_row_def parse_release_date_def
        parse_required_age_orders Let_def split: option.split)




text \<open>
  C9. The claim fails for the three tables that \<^verbatim>\<open>prepare_data\<close> takes out of sets:
  \<^verbatim>\<open>game_categories\<close> is \<^verbatim>\<open>list(set(game_categories))\<close>, \<^verbatim>\<open>developers\<close> and
  \<^verbatim>\<open>publishers\<close> are sets of strings turned into lists. Their order is the iteration
  order of the set, not the order of the input; for strings it changes from one run of
  the interpreter to the next. An app with the categories 2 and 1, in this order, gets
  its junction rows in the order 1, 2 (CPython lists this set so).
\<close>

theorem set_tables_unordered:
  "entries_of raw_categories unordered_data = [(10, 2, ''Multi-player''), (10, 1, ''Single-player'')]
   \<and> game_categories (prepare_data example_runtime unordered_data) = [(10, 1), (10, 2)]
   \<and> entries_of raw_developers unordered_data = [(10, ''Valve''), (10, ''Hidden Path'')]
   \<and> developers (prepare_data example_runtime unordered_data) = [''Hidden Path'', ''Valve'']"
  by (simp add: pipeline_simps unordered_data_def entries_of_def item_entries_def)

text \<open>
  C9, as amended. The rows of \<^verbatim>\<open>games\<close>, \<^verbatim>\<open>game_genres\<close>, \<^verbatim>\<open>game_developers\<close>
  and \<^verbatim>\<open>game_publishers\<close> follow the input sequence; the rows of \<^verbatim>\<open>genres\<close> are in
  the order in which their ids are first encountered, the rows of \<^verbatim>\<open>categories\<close> in
  the order in which their ids first come with a new name; in the tags pipeline the
  junction rows are appended in input order, the tags table is in the order in which
  its ids are first appended, and the deduplicated junction table keeps, in first-encounter
  order of the keys, the first row of every key. These tables do not depend on the
  iteration order of sets, so they are the same on every run. \<^verbatim>\<open>developers\<close>,
  \<^verbatim>\<open>publishers\<close> and \<^verbatim>\<open>game_categories\<close> hold the right rows, each once, in an order
  that is left open.
\<close>

theorem first_encounter_rows:
  "map fst (games (prepare_data rt data)) = map fst (game_items data)
   \<and> game_genres (prepare_data rt data)
       = map (\<lambda>(appid, gid, description). (appid, gid)) (entries_of raw_genres data)
   \<and> game_developers (prepare_data rt data) = entries_of raw_developers data
   \<and> game_publishers (prepare_data rt data) = entries_of raw_publishers data
   \<and> first_encounter_order (map (\<lambda>(appid, gid, description). gid) (entries_of raw_genres data))
        (map fst (genres (prepare_data rt data)))
   \<and> first_encounter_order (map fst (registrations {} (entries_of raw_categories data)))
        (map fst (categories (prepare_data rt data)))
   \<and> (iteration_order (order_names rt) \<longrightarrow>
        distinct (developers (prepare_data rt data))
        \<and> set (developers (prepare_data rt data)) = snd ` set (entries_of raw_developers data)
        \<and> distinct (publishers (prepare_data rt data))
        \<and> set (publishers (prepare_data rt data)) = snd ` set (entries_of raw_publishers data))
   \<and> (iteration_order (order_pairs rt) \<longrightarrow>
        distinct (game_categories (prepare_data rt data))
        \<and> set (game_categories (prepare_data rt data))
            = (\<lambda>(appid, cid, name). (appid, the (first_id_for (entries_of raw_categories data) name)))
                ` set (entries_of raw_categories data))
   \<and> map (\<lambda>(appid, tagid, votes, scraped_at). (appid, votes, scraped_at))
         (game_tags (foldl process_record initial_tag_vars records))
       = map (\<lambda>(appid, scraped_at, tagid, name, votes). (appid, votes, scraped_at)) (tag_entries records)
   \<and> first_encounter_order
         (map (\<lambda>(appid, tagid, votes, scraped_at). tagid) (game_tags (foldl process_record initial_tag_vars records)))
         (map fst (tag_rows (prepare_tag_data records)))
   \<and> first_encounter_order
         (map tag_key (game_tags (foldl process_record initial_tag_vars records)))
         (map tag_key (game_tag_rows (prepare_tag_data records)))
   \<and> (\<forall>row\<in>set (game_tag_rows (prepare_tag_data records)).
         find (\<lambda>r. tag_key r = tag_key row) (game_tags (foldl process_record initial_tag_vars records))
           = Some row)
   \<and> games (prepare_data (rt\<lparr>order_pairs := oa, order_names := ob\<rparr>) data) = games (prepare_data rt data)
   \<and> genres (prepare_data (rt\<lparr>order_pairs := oa, order_names := ob\<rparr>) data) = genres (prepare_data rt data)
   \<and> categories (prepare_data (rt\<lparr>order_pairs := oa, order_names := ob\<rparr>) data) = categories (prepare_data rt data)
   \<and> game_genres (prepare_data (rt\<lparr>order_pairs := oa, order_names := ob\<rparr>) data) = game_genres (prepare_data rt data)
   \<and> game_developers (prepare_data (rt\<lparr>order_pairs := oa, order_names := ob\<rparr>) data) = game_developers (prepare_data rt data)
   \<and> game_publishers (prepare_data (rt\<lparr>order_pairs := oa, order_names := ob\<rparr>) data) = game_publishers (prepare_data rt data)"
proof -
  let ?v = "foldl (process_app rt) initial_vars data"
  let ?E = "entries_of raw_categories data"
  let ?w = "foldl process_record initial_tag_vars records"
  have tables: "games (prepare_data rt data) = games ?v" "genres (prepare_data rt data) = genres ?v"
    "categories (prepare_data rt data) = categories ?v"
    "game_genres (prepare_data rt data) = game_genres ?v"
    "game_developers (prepare_data rt data) = game_developers ?v"
    "game_publishers (prepare_data rt data) = game_publishers ?v"
    "developers (prepare_data rt data) = order_names rt (developers ?v)"
    "publishers (prepare_data rt data) = order_names rt (publishers ?v)"
    "game_categories (prepare_data rt data) = order_pairs rt (set_of_list (game_categories ?v))"
    by (simp_all add: prepare_data_def Let_def list_of_set_def)
  have 1: "map fst (games (prepare_data rt data)) = map fst (game_items data)"
    by (simp add: tables foldl_process_app_fields initial_vars_def make_game_row_def comp_def
          case_prod_unfold)
  have 2: "game_genres (prepare_data rt data)
       = map (\<lambda>(appid, gid, description). (appid, gid)) (entries_of raw_genres data)"
    by (simp add: tables foldl_process_app_fields initial_vars_def case_prod_unfold)
  have 3: "game_developers (prepare_data rt data) = entries_of raw_developers data"
    by (simp add: tables foldl_process_app_fields initial_vars_def)
  have 4: "game_publishers (prepare_data rt data) = entries_of raw_publishers data"
    by (simp add: tables foldl_process_app_fields initial_vars_def)
  have 5: "first_encounter_order (map (\<lambda>(appid, gid, description). gid) (entries_of raw_genres data))
        (map fst (genres (prepare_data rt data)))"
    using first_encounter_foldl [of "map (\<lambda>e. fst (snd e)) (entries_of raw_genres data)"]
    by (simp add: tables foldl_process_app_fields initial_vars_def genre_keys case_prod_unfold)
  from prepare_categories [of data rt]
  have ci: "map_of (category_name_to_id ?v) = first_id_for ?E
        \<and> game_categories ?v = map (\<lambda>(a, c, n). (a, the (first_id_for ?E n))) ?E
        \<and> distinct (map snd (categories ?v))
        \<and> snd ` set (categories ?v) \<subseteq> (\<lambda>e. snd (snd e)) ` set ?E
        \<and> map fst (categories ?v) = foldl (\<lambda>s x. set_add x s) [] (map fst (registrations {} ?E))"
    unfolding cat_inv_def prod.case .
  have "map fst (categories ?v) = foldl (\<lambda>s x. set_add x s) [] (map fst (registrations {} ?E))"
    using ci by blast
  then have 6: "first_encounter_order (map fst (registrations {} ?E))
        (map fst (categories (prepare_data rt data)))"
    using first_encounter_foldl [of "map fst (registrations {} ?E)"] by (simp add: tables)
  have 7: "distinct (developers (prepare_data rt data))
        \<and> set (developers (prepare_data rt data)) = snd ` set (entries_of raw_developers data)
        \<and> distinct (publishers (prepare_data rt data))
        \<and> set (publishers (prepare_data rt data)) = snd ` set (entries_of raw_publishers data)"
    if "iteration_order (order_names rt)"
    using iteration_order_distinct [OF that] iteration_order_set [OF that]
    by (simp add: tables foldl_process_app_fields foldl_set_add initial_vars_def)
  have 8: "distinct (game_categories (prepare_data rt data))
        \<and> set (game_categories (prepare_data rt data))
            = (\<lambda>(appid, cid, name). (appid, the (first_id_for ?E name))) ` set ?E"
    if "iteration_order (order_pairs rt)"
    using iteration_order_distinct [OF that] iteration_order_set [OF that]
      conjunct1 [OF conjunct2 [OF ci]]
    by (simp add: tables distinct_set_of_list set_set_of_list)
  from prepare_tags(1) [of records]
  have ti: "distinct (map fst (tags ?w)) \<and> distinct (map snd (tags ?w))
    \<and> map (\<lambda>(a, t, v, s). (a, v, s)) (game_tags ?w) = map (\<lambda>(a, s, t, n, v). (a, v, s)) (tag_entries records)
    \<and> map fst (tags ?w) = foldl (\<lambda>s x. set_add x s) [] (map (\<lambda>g. fst (snd g)) (game_tags ?w))"
    unfolding tag_inv_def prod.case .
  have 9: "map (\<lambda>(appid, tagid, votes, scraped_at). (appid, votes, scraped_at)) (game_tags ?w)
       = map (\<lambda>(appid, scraped_at, tagid, name, votes). (appid, votes, scraped_at)) (tag_entries records)"
    using ti by blast
  have "map fst (tags ?w) = foldl (\<lambda>s x. set_add x s) [] (map (\<lambda>g. fst (snd g)) (game_tags ?w))"
    using ti by blast
  then have 10: "first_encounter_order
         (map (\<lambda>(appid, tagid, votes, scraped_at). tagid) (game_tags ?w))
         (map fst (tag_rows (prepare_tag_data records)))"
    using first_encounter_foldl [of "map (\<lambda>g. fst (snd g)) (game_tags ?w)"]
    by (simp add: prepare_tag_data_def Let_def case_prod_unfold)
  have 11: "first_encounter_order (map tag_key (game_tags ?w))
         (map tag_key (game_tag_rows (prepare_tag_data records)))
     \<and> (\<forall>row\<in>set (game_tag_rows (prepare_tag_data records)).
         find (\<lambda>r. tag_key r = tag_key row) (game_tags ?w) = Some row)"
    using dedupe_first [of "game_tags ?w"] by (simp add: prepare_tag_data_def Let_def)
  have 12: "games (prepare_data (rt\<lparr>order_pairs := oa, order_names := ob\<rparr>) data) = games (prepare_data rt data)
   \<and> genres (prepare_data (rt\<lparr>order_pairs := oa, order_names := ob\<rparr>) data) = genres (prepare_data rt data)
   \<and> categories (prepare_data (rt\<lparr>order_pairs := oa, order_names := ob\<rparr>) data) = categories (prepare_data rt data)
   \<and> game_genres (prepare_data (rt\<lparr>order_pairs := oa, order_names := ob\<rparr>) data) = game_genres (prepare_data rt data)
   \<and> game_developers (prepare_data (rt\<lparr>order_pairs := oa, order_names := ob\<rparr>) data) = game_developers (prepare_data rt data)
   \<and> game_publishers (prepare_data (rt\<lparr>order_pairs := oa, order_names := ob\<rparr>) data) = game_publishers (prepare_data rt data)"
    by (simp add: prepare_data_def Let_def process_app_orders)
  from 1 2 3 4 5 6 7 8 9 10 11 12 show ?thesis by blast
qed

text \<open>
  The amended C9 at the examples above: the orders of the example runtime are iteration
  orders, the junction rows of the two "RPG" records come out in input order, the one
  game is the one row of the games table, and its two developers are listed once each.
\<close>

theorem first_encounter_rows_witness:
  "iteration_order (order_names example_runtime)
   \<and> iteration_order (order_pairs example_runtime)
   \<and> game_tag_rows (prepare_tag_data rpg_records) = [(1, 10, 5, None), (2, 10, 7, None)]
   \<and> (1, 10, 5, None) \<in> set (game_tag_rows (prepare_tag_data rpg_records))
   \<and> game_tags (foldl process_record initial_tag_vars rpg_records) = [(1, 10, 5, None), (2, 10, 7, None)]
   \<and> map fst (games (prepare_data example_runtime unordered_data)) = [10]
   \<and> distinct (developers (prepare_data example_runtime unordered_data))
   \<and> set (developers (prepare_data example_runtime unordered_data))
       = snd ` set (entries_of raw_developers unordered_data)"
proof -
  have tags: "game_tags (foldl process_record initial_tag_vars rpg_records) = [(1, 10, 5, None), (2, 10, 7, None)]"
    by (simp add: rpg_records_def process_record_def add_tag_def initial_tag_vars_def Let_def)
  have rows: "game_tag_rows (prepare_tag_data rpg_records) = [(1, 10, 5, None), (2, 10, 7, None)]"
    by (simp add: prepare_tag_data_def tags Let_def)
  from first_encounter_rows [of example_runtime unordered_data rpg_records] example_orders
  have inst: "map fst (games (prepare_data example_runtime unordered_data)) = map fst (game_items unordered_data)
    \<and> distinct (developers (prepare_data example_runtime unordered_data))
    \<and> set (developers (prepare_data example_runtime unordered_data))
       = snd ` set (entries_of raw_developers unordered_data)"
    by blast
  have items: "map fst (game_items unordered_data) = [10]"
    by (simp add: game_items_def unordered_data_def plain_game_def)
  from inst items rows tags example_orders show ?thesis by simp
qed

end
